theory Spec2Isabelle
  imports Complex_Main
begin

section \<open>ZenMon agent v2.0: credential lifecycle, transmission and the agent loop\<close>

text \<open>
  A shallow embedding of \<^verbatim>\<open>zenmon-agent-python-v2.0.py\<close>: the classes
  \<^verbatim>\<open>AgentConfig\<close>, \<^verbatim>\<open>AuthToken\<close>, \<^verbatim>\<open>TokenManager\<close>,
  \<^verbatim>\<open>AuthenticatedApiClient\<close> and \<^verbatim>\<open>ZenMonAgent\<close>, and \<^verbatim>\<open>main\<close>.
  Mutable objects become one explicit state record that every method takes and returns.
  Everything the program obtains from outside (HTTP replies, the wall clock, shutdown
  signals, sampled metrics) is read from an environment record of oracles, indexed by
  how many times the program has asked before; the state counts those requests, so the
  number of calls made to each endpoint is observable.
\<close>

subsection \<open>Values received from the remote service\<close>

text \<open>
  What \<^verbatim>\<open>response.json()\<close> returns: a JSON value. A JSON object is a Python dict,
  kept as an association list and read with \<^const>\<open>map_of\<close>. Numbers are integers here.
\<close>

datatype json =
    JNull
  | JBool bool
  | JNum int
  | JStr string
  | JArr "json list"
  | JObj "(string \<times> json) list"

text \<open>
  The exceptions that the modelled code can meet. \<open>ValueError\<close> is what
  \<^verbatim>\<open>response.json()\<close> raises on a body that is not JSON; \<open>Timeout\<close>,
  \<open>ConnectionError\<close> and \<open>RequestException\<close> are those of the HTTP library;
  \<open>ZeroDivisionError\<close> and \<open>OverflowError\<close> come from the division of integers, and
  \<open>RecursionError\<close> from a call that the interpreter's stack has no room for.
\<close>

datatype pyexc =
    KeyError
  | TypeError
  | ValueError
  | Timeout
  | ConnectionError
  | RequestException
  | ZeroDivisionError
  | OverflowError
  | RecursionError

text \<open>
  \<^verbatim>\<open>d[k]\<close> with a string key: a dict looks the key up and raises \<open>KeyError\<close> when it is
  missing; every other JSON value raises \<open>TypeError\<close> (a str or list wants integer
  indices, the others are not subscriptable).
\<close>

definition getitem :: "json \<Rightarrow> string \<Rightarrow> pyexc + json" where
  "getitem d k =
     (case d of
        JObj kvs \<Rightarrow> (case map_of kvs k of None \<Rightarrow> Inl KeyError | Some v \<Rightarrow> Inr v)
      | _ \<Rightarrow> Inl TypeError)"

text \<open>
  \<^verbatim>\<open>v[:20]\<close> and \<^verbatim>\<open>v[-10:]\<close>, as the debug messages about a token evaluate them:
  a str and a list can be sliced, any other value raises (the result itself only goes
  to the log, so only whether the slice evaluates is kept). For a dict the exception is
  \<open>TypeError\<close> or, from Python 3.12 on, \<open>KeyError\<close>; every handler that can meet it treats
  the two alike.
\<close>

definition getslice :: "json \<Rightarrow> pyexc + unit" where
  "getslice v = (case v of JStr _ \<Rightarrow> Inr () | JArr _ \<Rightarrow> Inr () | _ \<Rightarrow> Inl TypeError)"

text \<open>
  The outcome of one HTTP request: the library raised, or a response with a status code
  and the part of the body that the caller reads.
\<close>

datatype 'b reply = Failed pyexc | Response int 'b

subsection \<open>Time\<close>

text \<open>
  A \<^verbatim>\<open>datetime\<close> is a number of microseconds since an epoch and a \<^verbatim>\<open>timedelta\<close> a
  number of microseconds, which is their resolution in Python.
\<close>

type_synonym datetime = int
type_synonym timedelta = int

definition timedelta_minutes :: "int \<Rightarrow> timedelta" where
  "timedelta_minutes m = m * 60000000"

subsection \<open>Floating-point arithmetic\<close>

text \<open>
  A Python \<^verbatim>\<open>float\<close> is an IEEE 754 double, kept here as the rational number it
  denotes. The doubles between \<open>2 ^ k\<close> and \<open>2 ^ (k + 1)\<close> are the multiples of
  \<open>2 ^ (k - 52)\<close>, and an arithmetic operation returns the double nearest to the exact
  result, a tie going to the even multiple.

  \<open>bit_length\<close> is \<^verbatim>\<open>int.bit_length\<close> on a positive \<^verbatim>\<open>int\<close>; \<open>ilog2 x\<close> is the \<open>k\<close> with
  \<open>2 ^ k \<le> x < 2 ^ (k + 1)\<close>, for a positive \<open>x\<close>; \<open>float_round x\<close> is the double nearest
  to \<open>x\<close>. The exponent is not bounded in \<open>float_round\<close>: the numbers rounded below are 0
  or at least \<open>1 / 60000000\<close> in magnitude, far above the subnormal doubles, and the
  division that can exceed the largest double checks for it.
\<close>

function bit_length :: "int \<Rightarrow> nat" where
  "bit_length n = (if n \<le> 0 then 0 else Suc (bit_length (n div 2)))"
  by pat_completeness auto
termination
  by (relation "measure nat") auto

declare bit_length.simps [simp del]

definition round_half_even :: "rat \<Rightarrow> int" where
  "round_half_even q =
     (let f = \<lfloor>q\<rfloor>; d = q - of_int f
      in if d < 1 / 2 then f else if 1 / 2 < d then f + 1 else if even f then f else f + 1)"

definition ilog2 :: "rat \<Rightarrow> int" where
  "ilog2 x =
     (if 1 \<le> x then int (bit_length \<lfloor>x\<rfloor>) - 1
      else (let k = int (bit_length \<lfloor>1 / x\<rfloor>) - 1
            in if x * 2 powi k = 1 then - k else - k - 1))"

definition float_round :: "rat \<Rightarrow> rat" where
  "float_round x =
     (if x = 0 then 0
      else (let a = \<bar>x\<bar>; u = 2 powi (ilog2 a - 52)
            in sgn x * (of_int (round_half_even (a / u)) * u)))"

text \<open>
  \<^verbatim>\<open>a / b\<close> on two \<^verbatim>\<open>int\<close>s: the exact quotient rounded once, \<open>OverflowError\<close> when
  the rounded quotient is beyond the largest double.
\<close>

definition int_truediv :: "int \<Rightarrow> int \<Rightarrow> pyexc + rat" where
  "int_truediv a b =
     (if b = 0 then Inl ZeroDivisionError
      else (let q = float_round (of_int a / of_int b)
            in if 2 ^ 1024 \<le> \<bar>q\<bar> then Inl OverflowError else Inr q))"

text \<open>
  \<^verbatim>\<open>x / n\<close> on a \<^verbatim>\<open>float\<close> and a non-zero \<^verbatim>\<open>int\<close> below \<open>2 ^ 53\<close>: the \<^verbatim>\<open>int\<close>
  converts exactly and the quotient is rounded.
\<close>

definition float_div_int :: "rat \<Rightarrow> int \<Rightarrow> rat" where
  "float_div_int x n = float_round (x / of_int n)"

text \<open>
  \<^verbatim>\<open>timedelta.total_seconds()\<close> divides the microseconds by \<open>10 ^ 6\<close> with the true
  division of integers. A \<^verbatim>\<open>timedelta\<close> is below \<open>10 ^ 9\<close> days, so the quotient is
  far from the largest double.
\<close>

definition total_seconds :: "timedelta \<Rightarrow> rat" where
  "total_seconds td = float_round (of_int td / 1000000)"

subsection \<open>Configuration\<close>

record AgentConfig =
  api_url :: string
  host_id :: int
  login :: string
  password :: string
  collection_interval :: int
  timeout :: int
  token_refresh_margin :: int
  enable_cpu_monitoring :: bool
  enable_ram_monitoring :: bool
  enable_disk_monitoring :: bool
  enable_network_monitoring :: bool

text \<open>
  The dataclass constructor as \<^verbatim>\<open>main\<close> calls it: four arguments, the other fields
  at their declared defaults.
\<close>

definition AgentConfig_init :: "string \<Rightarrow> int \<Rightarrow> string \<Rightarrow> string \<Rightarrow> AgentConfig" where
  "AgentConfig_init url hid lg pw =
     \<lparr> api_url = url, host_id = hid, login = lg, password = pw,
       collection_interval = 120, timeout = 30, token_refresh_margin = 300,
       enable_cpu_monitoring = True, enable_ram_monitoring = True,
       enable_disk_monitoring = True, enable_network_monitoring = True \<rparr>"

text \<open>
  The configuration object of \<^verbatim>\<open>GET /agent/configuration/{host_id}\<close>, a dict. Each of
  the five keys that \<^verbatim>\<open>update_from_api\<close> reads is present with a value of the type the
  dataclass declares for the field it is stored in, or absent; \<open>other_keys\<close> are the
  remaining keys of the dict, which matter only for its truth value.
\<close>

record api_config =
  get_data_collection_interval :: "int option"
  get_enable_cpu_monitoring :: "bool option"
  get_enable_ram_monitoring :: "bool option"
  get_enable_disk_monitoring :: "bool option"
  get_enable_network_monitoring :: "bool option"
  other_keys :: "string list"

text \<open>\<^verbatim>\<open>d.get(key, default)\<close> on one entry.\<close>

definition dict_get :: "'a option \<Rightarrow> 'a \<Rightarrow> 'a" where
  "dict_get entry dflt = (case entry of None \<Rightarrow> dflt | Some v \<Rightarrow> v)"

text \<open>The truth value of the dict: it has at least one key.\<close>

definition dict_truthy :: "api_config \<Rightarrow> bool" where
  "dict_truthy d \<longleftrightarrow>
     get_data_collection_interval d \<noteq> None \<or> get_enable_cpu_monitoring d \<noteq> None \<or>
     get_enable_ram_monitoring d \<noteq> None \<or> get_enable_disk_monitoring d \<noteq> None \<or>
     get_enable_network_monitoring d \<noteq> None \<or> other_keys d \<noteq> []"

text \<open>
  \<^verbatim>\<open>AgentConfig.update_from_api\<close>: the old values are saved, the five fields are
  overwritten, and the result says whether any of them changed. The updated object is
  returned next to the result.
\<close>

definition update_from_api :: "AgentConfig \<Rightarrow> api_config \<Rightarrow> bool \<times> AgentConfig" where
  "update_from_api self d =
     (let old_interval = collection_interval self;
          old_cpu = enable_cpu_monitoring self;
          old_ram = enable_ram_monitoring self;
          old_disk = enable_disk_monitoring self;
          old_network = enable_network_monitoring self;
          self = self\<lparr> collection_interval := dict_get (get_data_collection_interval d) 120 \<rparr>;
          self = self\<lparr> enable_cpu_monitoring := dict_get (get_enable_cpu_monitoring d) True \<rparr>;
          self = self\<lparr> enable_ram_monitoring := dict_get (get_enable_ram_monitoring d) True \<rparr>;
          self = self\<lparr> enable_disk_monitoring := dict_get (get_enable_disk_monitoring d) True \<rparr>;
          self = self\<lparr> enable_network_monitoring :=
                   dict_get (get_enable_network_monitoring d) True \<rparr>;
          config_changed =
            (old_interval \<noteq> collection_interval self \<or>
             old_cpu \<noteq> enable_cpu_monitoring self \<or>
             old_ram \<noteq> enable_ram_monitoring self \<or>
             old_disk \<noteq> enable_disk_monitoring self \<or>
             old_network \<noteq> enable_network_monitoring self)
      in (config_changed, self))"

subsection \<open>The agent's state and its environment\<close>

record AuthToken =
  token :: json
  expires_at :: datetime
  user_id :: json
  username :: json

text \<open>
  The objects of one running agent. \<open>config\<close> is the one \<^verbatim>\<open>AgentConfig\<close> object
  that the agent, the token manager and the API client all hold a reference to.
  \<open>current_token\<close> is \<^verbatim>\<open>TokenManager.current_token\<close>; \<open>authorization\<close>
  is the session's \<^verbatim>\<open>Authorization\<close> header, kept as the value \<open>v\<close> that the
  header \<^verbatim>\<open>f'Bearer {v}'\<close> was formatted from, or \<open>None\<close> while the header is not set.
  The token's fields hold whatever values the login response carried: Python checks no
  annotation. The remaining fields count the requests made to the environment so far.
\<close>

record agent_state =
  config :: AgentConfig
  current_token :: "AuthToken option"
  authorization :: "json option"
  running :: bool
  last_heartbeat :: datetime
  last_config_refresh :: datetime
  clock_reads :: nat
  login_posts :: nat
  batch_posts :: nat
  heartbeat_posts :: nat
  config_gets :: nat
  directory_gets :: nat
  sleeps :: nat
  cycles :: nat

text \<open>
  The environment. \<open>clock k\<close> is what the \<open>k\<close>-th call of \<^verbatim>\<open>datetime.now()\<close>
  returns; \<open>login_reply k\<close> is the outcome of the \<open>k\<close>-th \<^verbatim>\<open>POST /login\<close>, with
  the parsed body or \<open>None\<close> when the body is not JSON; likewise for the other
  endpoints (the bodies of the batch and heartbeat replies only reach the log).
  \<open>cpu_probe k\<close>, \<open>memory_probe k\<close>, \<open>network_probe k\<close> and \<open>storage_probe k\<close> are
  the outcomes of the four system probes in the \<open>k\<close>-th cycle: how many times the
  probe reads the clock, and what it returns. \<open>signal_during_cycle k\<close> says that a
  shutdown signal is delivered while the body of the \<open>k\<close>-th loop iteration runs,
  \<open>signal_during_sleep k\<close> that one is delivered during the \<open>k\<close>-th
  \<^verbatim>\<open>time.sleep(1)\<close>. \<open>py_int\<close> is Python's \<^verbatim>\<open>int()\<close> on a string, \<open>None\<close>
  standing for its \<open>ValueError\<close>.
  \<open>recursion_room\<close> is how many times a call of \<^verbatim>\<open>send_metrics\<close> made by the agent
  can call itself, one activation inside the other, before the interpreter's
  recursion limit (1000 frames unless changed) is reached.
\<close>

record env =
  clock :: "nat \<Rightarrow> datetime"
  login_reply :: "nat \<Rightarrow> json option reply"
  batch_reply :: "nat \<Rightarrow> unit reply"
  heartbeat_reply :: "nat \<Rightarrow> unit reply"
  config_reply :: "nat \<Rightarrow> api_config option reply"
  cpu_probe :: "nat \<Rightarrow> nat \<times> json option"
  memory_probe :: "nat \<Rightarrow> nat \<times> json option"
  network_probe :: "nat \<Rightarrow> nat \<times> json option"
  storage_probe :: "nat \<Rightarrow> nat \<times> json list"
  on_windows :: bool
  signal_during_cycle :: "nat \<Rightarrow> bool"
  signal_during_sleep :: "nat \<Rightarrow> bool"
  py_int :: "string \<Rightarrow> int option"
  recursion_room :: nat

definition datetime_now :: "env \<Rightarrow> agent_state \<Rightarrow> datetime \<times> agent_state" where
  "datetime_now e s = (clock e (clock_reads s), s\<lparr> clock_reads := Suc (clock_reads s) \<rparr>)"

subsection \<open>TokenManager\<close>

text \<open>
  The \<^verbatim>\<open>try\<close> block of \<^verbatim>\<open>authenticate\<close>. The result is the value returned or the
  exception raised, next to the state reached at that point. The keyword arguments of
  \<^verbatim>\<open>AuthToken(...)\<close> are evaluated before \<^verbatim>\<open>current_token\<close> is assigned; the
  debug message that slices the token is evaluated after the header is set.
\<close>

definition authenticate_try :: "env \<Rightarrow> agent_state \<Rightarrow> (pyexc + bool) \<times> agent_state" where
  "authenticate_try e s =
     (let s1 = s\<lparr> login_posts := Suc (login_posts s) \<rparr> in
      case login_reply e (login_posts s) of
        Failed ex \<Rightarrow> (Inl ex, s1)
      | Response status_code body \<Rightarrow>
          if status_code = 200 then
            (case body of
               None \<Rightarrow> (Inl ValueError, s1)
             | Some data \<Rightarrow>
                 (case getitem data ''token'' of
                    Inl ex \<Rightarrow> (Inl ex, s1)
                  | Inr token_string \<Rightarrow>
                      (case getitem data ''user'' of
                         Inl ex \<Rightarrow> (Inl ex, s1)
                       | Inr user_info \<Rightarrow>
                           (let (now, s2) = datetime_now e s1;
                                expires = now + timedelta_minutes 480
                            in case getitem user_info ''id'' of
                                 Inl ex \<Rightarrow> (Inl ex, s2)
                               | Inr uid \<Rightarrow>
                                   (case getitem user_info ''login'' of
                                      Inl ex \<Rightarrow> (Inl ex, s2)
                                    | Inr uname \<Rightarrow>
                                        (let s3 = s2\<lparr> current_token :=
                                                        Some \<lparr> token = token_string,
                                                               expires_at = expires,
                                                               user_id = uid,
                                                               username = uname \<rparr> \<rparr>;
                                             s4 = s3\<lparr> authorization := Some token_string \<rparr>
                                         in case getslice token_string of
                                              Inl ex \<Rightarrow> (Inl ex, s4)
                                            | Inr _ \<Rightarrow> (Inr True, s4)))))))
          else (Inr False, s1))"

text \<open>
  \<^verbatim>\<open>TokenManager.authenticate\<close>: each of the three \<^verbatim>\<open>except\<close> clauses logs and
  returns \<open>False\<close>.
\<close>

definition authenticate :: "env \<Rightarrow> agent_state \<Rightarrow> bool \<times> agent_state" where
  "authenticate e s =
     (case authenticate_try e s of
        (Inl ex, s') \<Rightarrow> (False, s')
      | (Inr b, s') \<Rightarrow> (b, s'))"

text \<open>
  \<^verbatim>\<open>TokenManager.is_token_valid\<close>. An \<^verbatim>\<open>AuthToken\<close> object is always truthy. The
  comparison of the \<^verbatim>\<open>float\<close> with the \<^verbatim>\<open>int\<close> margin is exact in Python.
\<close>

definition is_token_valid :: "env \<Rightarrow> agent_state \<Rightarrow> bool \<times> agent_state" where
  "is_token_valid e s =
     (case current_token s of
        None \<Rightarrow> (False, s)
      | Some tok \<Rightarrow>
          (let (now, s1) = datetime_now e s;
               time_until_expiry = expires_at tok - now
           in (total_seconds time_until_expiry > of_int (token_refresh_margin (config s1)), s1)))"

text \<open>
  \<^verbatim>\<open>TokenManager.refresh_token_if_needed\<close>. It has no \<^verbatim>\<open>try\<close>, so an exception
  raised in it reaches the caller. \<^verbatim>\<open>token_refresh_margin / 60\<close> is evaluated for the
  first debug message and again, with the same outcome, for the comparison; the
  message logged before a refresh slices the current token.
\<close>

definition refresh_token_if_needed :: "env \<Rightarrow> agent_state \<Rightarrow> (pyexc + bool) \<times> agent_state" where
  "refresh_token_if_needed e s =
     (case current_token s of
        None \<Rightarrow> (let (b, s') = authenticate e s in (Inr b, s'))
      | Some tok \<Rightarrow>
          (let (now, s1) = datetime_now e s;
               time_until_expiry = expires_at tok - now;
               minutes_left = float_div_int (total_seconds time_until_expiry) 60
           in case int_truediv (token_refresh_margin (config s1)) 60 of
                Inl ex \<Rightarrow> (Inl ex, s1)
              | Inr margin_minutes \<Rightarrow>
                  if minutes_left \<le> margin_minutes then
                    (case getslice (token tok) of
                       Inl ex \<Rightarrow> (Inl ex, s1)
                     | Inr _ \<Rightarrow> (let (b, s') = authenticate e s1 in (Inr b, s')))
                  else (Inr True, s1)))"

subsection \<open>AuthenticatedApiClient\<close>

text \<open>
  \<^verbatim>\<open>send_metrics\<close>. The metrics are JSON objects that serialise. The token gate stands
  before the \<^verbatim>\<open>try\<close>; inside it, every exception of the request gives \<open>False\<close>. The
  function calls itself after a 401 and a successful \<^verbatim>\<open>authenticate\<close>, from inside
  the \<^verbatim>\<open>try\<close>. The first argument is the number of nested calls that the stack
  still has room for: with no room left the call raises \<open>RecursionError\<close>, and the last
  \<^verbatim>\<open>except\<close> clause of the activation that made the call, which also catches any
  exception leaving a nested call, logs it and returns \<open>False\<close>. (Should the handler's
  own logging not fit on the stack either, the exception travels on to the enclosing
  activation, whose handler does the same: the result and the requests made are the
  same.)
\<close>

fun send_metrics_at ::
  "nat \<Rightarrow> env \<Rightarrow> json list \<Rightarrow> agent_state \<Rightarrow> (pyexc + bool) \<times> agent_state" where
  "send_metrics_at room e metrics s =
     (if metrics = [] then (Inr True, s)
      else
        (case refresh_token_if_needed e s of
           (Inl ex, s1) \<Rightarrow> (Inl ex, s1)
         | (Inr ok, s1) \<Rightarrow>
             if \<not> ok then (Inr False, s1)
             else
               (let s2 = s1\<lparr> batch_posts := Suc (batch_posts s1) \<rparr> in
                case batch_reply e (batch_posts s1) of
                  Failed ex \<Rightarrow> (Inr False, s2)
                | Response status_code body \<Rightarrow>
                    if status_code = 200 \<or> status_code = 201 then (Inr True, s2)
                    else if status_code = 401 then
                      (case authenticate e s2 of
                         (reauthenticated, s3) \<Rightarrow>
                           if reauthenticated then
                             (case (case room of
                                      0 \<Rightarrow> (Inl RecursionError, s3)
                                    | Suc room' \<Rightarrow> send_metrics_at room' e metrics s3) of
                                (Inl ex, s4) \<Rightarrow> (Inr False, s4)
                              | (Inr b, s4) \<Rightarrow> (Inr b, s4))
                           else (Inr False, s3))
                    else if status_code = 422 then (Inr False, s2)
                    else (Inr False, s2))))"

declare send_metrics_at.simps [simp del]

text \<open>\<^verbatim>\<open>send_metrics\<close> as the agent calls it.\<close>

definition send_metrics :: "env \<Rightarrow> json list \<Rightarrow> agent_state \<Rightarrow> (pyexc + bool) \<times> agent_state" where
  "send_metrics e metrics s = send_metrics_at (recursion_room e) e metrics s"

text \<open>
  \<^verbatim>\<open>send_heartbeat\<close>: the same gate, then the clock is read for the timestamp of the
  payload, one POST, no retry.
\<close>

definition send_heartbeat :: "env \<Rightarrow> agent_state \<Rightarrow> (pyexc + bool) \<times> agent_state" where
  "send_heartbeat e s =
     (case refresh_token_if_needed e s of
        (Inl ex, s1) \<Rightarrow> (Inl ex, s1)
      | (Inr ok, s1) \<Rightarrow>
          if \<not> ok then (Inr False, s1)
          else
            (let (timestamp, s2) = datetime_now e s1;
                 s3 = s2\<lparr> heartbeat_posts := Suc (heartbeat_posts s2) \<rparr>
             in case heartbeat_reply e (heartbeat_posts s2) of
                  Failed ex \<Rightarrow> (Inr False, s3)
                | Response status_code body \<Rightarrow>
                    if status_code = 200 \<or> status_code = 201 then (Inr True, s3)
                    else (Inr False, s3)))"

text \<open>
  \<^verbatim>\<open>get_agent_configuration\<close>: the parsed configuration, or \<open>None\<close> on any failure.
\<close>

definition get_agent_configuration ::
  "env \<Rightarrow> agent_state \<Rightarrow> (pyexc + api_config option) \<times> agent_state" where
  "get_agent_configuration e s =
     (case refresh_token_if_needed e s of
        (Inl ex, s1) \<Rightarrow> (Inl ex, s1)
      | (Inr ok, s1) \<Rightarrow>
          if \<not> ok then (Inr None, s1)
          else
            (let s2 = s1\<lparr> config_gets := Suc (config_gets s1) \<rparr> in
             case config_reply e (config_gets s1) of
               Failed ex \<Rightarrow> (Inr None, s2)
             | Response status_code body \<Rightarrow>
                 if status_code = 200 then
                   (case body of None \<Rightarrow> (Inr None, s2) | Some config_data \<Rightarrow> (Inr (Some config_data), s2))
                 else (Inr None, s2)))"

text \<open>
  \<^verbatim>\<open>get_monitored_directories\<close>, for what it does to the state: the gate and one GET.
  The list of directories it returns only selects what the storage probe samples.
\<close>

definition get_monitored_directories :: "env \<Rightarrow> agent_state \<Rightarrow> (pyexc + unit) \<times> agent_state" where
  "get_monitored_directories e s =
     (case refresh_token_if_needed e s of
        (Inl ex, s1) \<Rightarrow> (Inl ex, s1)
      | (Inr ok, s1) \<Rightarrow>
          if \<not> ok then (Inr (), s1)
          else (Inr (), s1\<lparr> directory_gets := Suc (directory_gets s1) \<rparr>))"

subsection \<open>ZenMonAgent\<close>

text \<open>
  The probes of \<^verbatim>\<open>SystemMetricsCollector\<close>. What a probe measures comes from the
  environment; the probe catches its own exceptions. \<^verbatim>\<open>collect_cpu_metric\<close>,
  \<^verbatim>\<open>collect_memory_metric\<close> and \<^verbatim>\<open>collect_network_metric\<close> return a metric (a dict
  that is not empty) or \<open>None\<close>, and read the clock for the timestamp of the metric
  they build.
\<close>

definition run_probe :: "env \<Rightarrow> nat \<times> 'a \<Rightarrow> agent_state \<Rightarrow> 'a \<times> agent_state" where
  "run_probe e outcome s = (snd outcome, s\<lparr> clock_reads := clock_reads s + fst outcome \<rparr>)"

text \<open>
  \<^verbatim>\<open>collect_storage_metrics\<close>. On a platform other than Windows it first asks the API
  client for the monitored directories and catches whatever that raises. Then each
  drive or directory is measured, the clock being read for the timestamp of each
  metric.
\<close>

definition collect_storage_metrics :: "env \<Rightarrow> agent_state \<Rightarrow> json list \<times> agent_state" where
  "collect_storage_metrics e s =
     (let s1 = (if on_windows e then s else snd (get_monitored_directories e s))
      in run_probe e (storage_probe e (cycles s1)) s1)"

text \<open>\<^verbatim>\<open>if metric: metrics.append(metric)\<close>.\<close>

definition append_metric :: "json list \<Rightarrow> json option \<Rightarrow> json list" where
  "append_metric metrics metric = (case metric of None \<Rightarrow> metrics | Some m \<Rightarrow> metrics @ [m])"

text \<open>
  \<^verbatim>\<open>collect_all_metrics\<close>: the enabled probes in the order CPU, memory, network,
  storage; the metrics they return are collected in one list.
\<close>

definition collect_all_metrics :: "env \<Rightarrow> agent_state \<Rightarrow> json list \<times> agent_state" where
  "collect_all_metrics e s =
     (let metrics = [];
          (cpu_metric, s1) =
            (if enable_cpu_monitoring (config s)
             then run_probe e (cpu_probe e (cycles s)) s else (None, s));
          metrics = append_metric metrics cpu_metric;
          (memory_metric, s2) =
            (if enable_ram_monitoring (config s1)
             then run_probe e (memory_probe e (cycles s1)) s1 else (None, s1));
          metrics = append_metric metrics memory_metric;
          (network_metric, s3) =
            (if enable_network_monitoring (config s2)
             then run_probe e (network_probe e (cycles s2)) s2 else (None, s2));
          metrics = append_metric metrics network_metric;
          (storage_metrics, s4) =
            (if enable_disk_monitoring (config s3)
             then collect_storage_metrics e s3 else ([], s3));
          metrics = metrics @ storage_metrics
      in (metrics, s4))"

text \<open>\<^verbatim>\<open>ZenMonAgent.__init__\<close>: nothing is running, both timers are overdue.\<close>

definition ZenMonAgent_init :: "env \<Rightarrow> AgentConfig \<Rightarrow> agent_state" where
  "ZenMonAgent_init e cfg =
     \<lparr> config = cfg, current_token = None, authorization = None, running = False,
       last_heartbeat = clock e 0 - timedelta_minutes 10,
       last_config_refresh = clock e 1 - timedelta_minutes 15,
       clock_reads = 2, login_posts = 0, batch_posts = 0, heartbeat_posts = 0,
       config_gets = 0, directory_gets = 0, sleeps = 0, cycles = 0 \<rparr>"

definition heartbeat_interval :: timedelta where
  "heartbeat_interval = timedelta_minutes 5"

definition config_refresh_interval :: timedelta where
  "config_refresh_interval = timedelta_minutes 10"

definition should_send_heartbeat :: "env \<Rightarrow> agent_state \<Rightarrow> bool \<times> agent_state" where
  "should_send_heartbeat e s =
     (let (now, s1) = datetime_now e s;
          time_since_last = now - last_heartbeat s1
      in (time_since_last \<ge> heartbeat_interval, s1))"

text \<open>\<^verbatim>\<open>_send_heartbeat\<close>: the timestamp moves only after a successful heartbeat.\<close>

definition do_send_heartbeat :: "env \<Rightarrow> agent_state \<Rightarrow> agent_state" where
  "do_send_heartbeat e s =
     (case send_heartbeat e s of
        (Inl ex, s1) \<Rightarrow> s1
      | (Inr success, s1) \<Rightarrow>
          if success then (let (now, s2) = datetime_now e s1 in s2\<lparr> last_heartbeat := now \<rparr>)
          else s1)"

definition should_refresh_config :: "env \<Rightarrow> agent_state \<Rightarrow> bool \<times> agent_state" where
  "should_refresh_config e s =
     (let (now, s1) = datetime_now e s;
          time_since_last = now - last_config_refresh s1
      in (time_since_last \<ge> config_refresh_interval, s1))"

text \<open>
  \<^verbatim>\<open>_refresh_config_if_needed\<close>: the whole body is in a \<^verbatim>\<open>try\<close> whose handler only
  logs. \<^verbatim>\<open>last_config_refresh\<close> is assigned inside \<^verbatim>\<open>if api_config:\<close>.
\<close>

definition refresh_config_if_needed :: "env \<Rightarrow> agent_state \<Rightarrow> agent_state" where
  "refresh_config_if_needed e s =
     (case get_agent_configuration e s of
        (Inl ex, s1) \<Rightarrow> s1
      | (Inr None, s1) \<Rightarrow> s1
      | (Inr (Some api_cfg), s1) \<Rightarrow>
          if dict_truthy api_cfg then
            (let (config_changed, cfg) = update_from_api (config s1) api_cfg;
                 s2 = s1\<lparr> config := cfg \<rparr>;
                 (now, s3) = datetime_now e s2
             in s3\<lparr> last_config_refresh := now \<rparr>)
          else s1)"

text \<open>
  \<^verbatim>\<open>_collect_and_send_metrics\<close>: the result of the transmission is only logged, and
  an exception is caught.
\<close>

definition collect_and_send_metrics :: "env \<Rightarrow> agent_state \<Rightarrow> agent_state" where
  "collect_and_send_metrics e s =
     (let (metrics, s1) = collect_all_metrics e s
      in if metrics \<noteq> [] then snd (send_metrics e metrics s1) else s1)"

text \<open>
  One \<^verbatim>\<open>time.sleep(1)\<close>. A signal delivered during the sleep runs
  \<^verbatim>\<open>_shutdown_handler\<close>, which clears \<^verbatim>\<open>running\<close>, and the sleep then completes.
\<close>

definition shutdown_handler :: "agent_state \<Rightarrow> agent_state" where
  "shutdown_handler s = s\<lparr> running := False \<rparr>"

definition time_sleep :: "env \<Rightarrow> agent_state \<Rightarrow> agent_state" where
  "time_sleep e s =
     (let s1 = s\<lparr> sleeps := Suc (sleeps s) \<rparr>
      in if signal_during_sleep e (sleeps s) then shutdown_handler s1 else s1)"

text \<open>
  The loop of \<^verbatim>\<open>_wait_for_next_cycle\<close>, with \<^verbatim>\<open>sleep_step = 1\<close>; the seconds slept
  are returned next to the state.
\<close>

function wait_loop :: "env \<Rightarrow> int \<Rightarrow> agent_state \<Rightarrow> int \<times> agent_state" where
  "wait_loop e total_slept s =
     (if total_slept < collection_interval (config s) \<and> running s
      then wait_loop e (total_slept + 1) (time_sleep e s)
      else (total_slept, s))"
  by pat_completeness auto
termination
  by (relation "measure (\<lambda>(e, total_slept, s). nat (collection_interval (config s) - total_slept))")
     (auto simp: time_sleep_def shutdown_handler_def Let_def)

declare wait_loop.simps [simp del]

definition wait_for_next_cycle :: "env \<Rightarrow> agent_state \<Rightarrow> int \<times> agent_state" where
  "wait_for_next_cycle e s = wait_loop e 0 s"

text \<open>
  The body of one iteration of the loop in \<^verbatim>\<open>start\<close>, up to the wait. Each of the
  methods it calls catches its own exceptions. A signal delivered while the body runs
  clears \<^verbatim>\<open>running\<close>; nothing in the body reads the flag.
\<close>

definition cycle_body :: "env \<Rightarrow> agent_state \<Rightarrow> agent_state" where
  "cycle_body e s =
     (let (hb, s1) = should_send_heartbeat e s;
          s2 = (if hb then do_send_heartbeat e s1 else s1);
          (rc, s3) = should_refresh_config e s2;
          s4 = (if rc then refresh_config_if_needed e s3 else s3);
          s5 = collect_and_send_metrics e s4;
          s6 = s5\<lparr> cycles := Suc (cycles s5) \<rparr>
      in if signal_during_cycle e (cycles s5) then shutdown_handler s6 else s6)"

text \<open>\<^verbatim>\<open>while self.running:\<close> in \<^verbatim>\<open>start\<close>; \<open>None\<close> is a loop that never ends.\<close>

partial_function (option) agent_loop :: "env \<Rightarrow> agent_state \<Rightarrow> agent_state option" where
  "agent_loop e s =
     (if running s then agent_loop e (snd (wait_for_next_cycle e (cycle_body e s)))
      else Some s)"

declare agent_loop.simps [code]

text \<open>
  \<^verbatim>\<open>ZenMonAgent.start\<close>. It returns \<open>None\<close> in Python in every case; the result here
  tells a normal return from an exception that leaves the method (the first
  \<^verbatim>\<open>get_agent_configuration\<close> is called outside any \<^verbatim>\<open>try\<close>).
\<close>

definition start :: "env \<Rightarrow> agent_state \<Rightarrow> ((pyexc + unit) \<times> agent_state) option" where
  "start e s =
     (case authenticate e s of
        (authenticated, s1) \<Rightarrow>
          if \<not> authenticated then Some (Inr (), s1)
          else
          (let s2 = s1\<lparr> running := True \<rparr> in
           case get_agent_configuration e s2 of
             (Inl ex, s3) \<Rightarrow> Some (Inl ex, s3)
           | (Inr api_cfg, s3) \<Rightarrow>
               (let s4 = (case api_cfg of
                            None \<Rightarrow> s3
                          | Some d \<Rightarrow>
                              if dict_truthy d
                              then s3\<lparr> config := snd (update_from_api (config s3) d) \<rparr>
                              else s3)
                in map_option (Pair (Inr ())) (agent_loop e s4))))"

text \<open>
  \<^verbatim>\<open>main\<close>, as the exit status of the process: \<^verbatim>\<open>sys.exit(1)\<close> gives 1, an exception
  that nothing catches gives 1, and returning from \<^verbatim>\<open>main\<close> gives 0. \<open>argv\<close> is
  \<^verbatim>\<open>sys.argv\<close>.
\<close>

definition main :: "env \<Rightarrow> string list \<Rightarrow> int option" where
  "main e argv =
     (if length argv \<noteq> 5 then Some 1
      else
        (case py_int e (argv ! 2) of
           None \<Rightarrow> Some 1
         | Some hid \<Rightarrow>
             (let cfg = AgentConfig_init (argv ! 1) hid (argv ! 3) (argv ! 4);
                  agent = ZenMonAgent_init e cfg
              in case start e agent of
                   None \<Rightarrow> None
                 | Some (Inl ex, s') \<Rightarrow> Some 1
                 | Some (Inr u, s') \<Rightarrow> Some 0)))"

subsection \<open>Concrete inputs\<close>

text \<open>
  A stub environment in the manner of a test double: the clock stands still, every
  endpoint answers with success, the CPU probe alone returns a metric, no signal
  arrives, and the stack has room for 990 nested calls. The scenarios below change one
  or two oracles at a time.
\<close>

definition login_body :: "json \<Rightarrow> json" where
  "login_body tok =
     JObj [(''token'', tok),
           (''user'', JObj [(''id'', JNum 1), (''login'', JStr ''admin'')])]"

definition payload_interval_60 :: api_config where
  "payload_interval_60 =
     \<lparr> get_data_collection_interval = Some 60, get_enable_cpu_monitoring = None,
       get_enable_ram_monitoring = None, get_enable_disk_monitoring = None,
       get_enable_network_monitoring = None, other_keys = [] \<rparr>"

definition stub_env :: env where
  "stub_env =
     \<lparr> clock = (\<lambda>k. 0),
       login_reply = (\<lambda>k. Response 200 (Some (login_body (JStr ''eyJ0eXAiOiJKV1Qi'')))),
       batch_reply = (\<lambda>k. Response 200 ()),
       heartbeat_reply = (\<lambda>k. Response 200 ()),
       config_reply = (\<lambda>k. Response 200 (Some payload_interval_60)),
       cpu_probe =
         (\<lambda>k. (1, Some (JObj [(''metric_type_id'', JNum 1), (''value'', JNum 17)]))),
       memory_probe = (\<lambda>k. (0, None)),
       network_probe = (\<lambda>k. (0, None)),
       storage_probe = (\<lambda>k. (0, [])),
       on_windows = False,
       signal_during_cycle = (\<lambda>k. False),
       signal_during_sleep = (\<lambda>k. False),
       py_int = (\<lambda>a. if a = ''42'' then Some 42 else None),
       recursion_room = 990 \<rparr>"

definition test_config :: AgentConfig where
  "test_config = AgentConfig_init ''http://localhost:8001/api'' 42 ''admin'' ''admin123''"

definition one_metric :: "json list" where
  "one_metric = [JObj [(''metric_type_id'', JNum 1), (''value'', JNum 17)]]"

text \<open>An agent that holds a token expiring at the given instant.\<close>

definition agent_with_token :: "datetime \<Rightarrow> agent_state" where
  "agent_with_token expiry =
     (ZenMonAgent_init stub_env test_config)
       \<lparr> current_token :=
           Some \<lparr> token = JStr ''previous'', expires_at = expiry,
                  user_id = JNum 1, username = JStr ''admin'' \<rparr>,
         authorization := Some (JStr ''previous'') \<rparr>"

text \<open>Scenarios for the batch endpoint and the login endpoint.\<close>

definition env_401_then_200 :: env where
  "env_401_then_200 =
     stub_env\<lparr> batch_reply := (\<lambda>k. if k < 1 then Response 401 () else Response 200 ()) \<rparr>"

definition env_401_401_200 :: env where
  "env_401_401_200 =
     stub_env\<lparr> batch_reply := (\<lambda>k. if k < 2 then Response 401 () else Response 200 ()) \<rparr>"

definition env_login_down :: env where
  "env_login_down =
     stub_env\<lparr> login_reply :=
                 (\<lambda>k. Response 401 (Some (JObj [(''message'', JStr ''Invalid credentials'')]))) \<rparr>"

definition env_401_login_down :: env where
  "env_401_login_down = env_login_down\<lparr> batch_reply := (\<lambda>k. Response 401 ()) \<rparr>"

definition env_422 :: env where
  "env_422 = stub_env\<lparr> batch_reply := (\<lambda>k. Response 422 ()) \<rparr>"

text \<open>A batch endpoint that always answers 401, under a stack with room for two nested calls.\<close>

definition env_401_always :: env where
  "env_401_always = stub_env\<lparr> batch_reply := (\<lambda>k. Response 401 ()), recursion_room := 2 \<rparr>"

text \<open>
  A login response whose token is a number; the same with a clock that stands at 0 for
  its first five readings and at 28500 s from then on; and a configuration endpoint
  that fails.
\<close>

definition env_numeric_token :: env where
  "env_numeric_token =
     stub_env\<lparr> login_reply := (\<lambda>k. Response 200 (Some (login_body (JNum 12345)))) \<rparr>"

definition env_numeric_token_late :: env where
  "env_numeric_token_late =
     env_numeric_token\<lparr> clock := (\<lambda>k. if k < 5 then 0 else 28500000000) \<rparr>"

definition env_config_down :: env where
  "env_config_down = stub_env\<lparr> config_reply := (\<lambda>k. Response 500 None) \<rparr>"

text \<open>A command line with the four arguments that \<^verbatim>\<open>main\<close> expects.\<close>

definition argv_example :: "string list" where
  "argv_example =
     [''zenmon-agent-python-v2.0.py'', ''http://localhost:8001/api'', ''42'', ''admin'',
      ''admin123'']"

text \<open>A shutdown signal delivered during the third second of sleep, and an agent that is running.\<close>

definition env_signal_at_2s :: env where
  "env_signal_at_2s = stub_env\<lparr> signal_during_sleep := (\<lambda>n. n = 2) \<rparr>"

definition running_agent :: agent_state where
  "running_agent = (agent_with_token 28800000000)\<lparr> running := True \<rparr>"

section \<open>Properties\<close>

subsection \<open>Rounding to a double\<close>

lemma bit_length_bounds: "0 < n \<Longrightarrow> 2 ^ (bit_length n - 1) \<le> n \<and> n < 2 ^ bit_length n"
proof (induction n rule: bit_length.induct)
  case (1 n)
  show ?case
  proof (cases "n div 2 \<le> 0")
    case True
    with "1.prems" have "n = 1" by arith
    then show ?thesis
      by (simp add: bit_length.simps)
  next
    case False
    then have h: "2 ^ (bit_length (n div 2) - 1) \<le> n div 2 \<and> n div 2 < 2 ^ bit_length (n div 2)"
      using "1.IH" "1.prems" by simp
    have pos: "0 < bit_length (n div 2)"
      using False by (subst bit_length.simps) simp
    have bl: "bit_length n = Suc (bit_length (n div 2))"
      using "1.prems" by (subst bit_length.simps) simp
    have "(2::int) ^ (bit_length n - 1) = 2 * 2 ^ (bit_length (n div 2) - 1)"
      using pos by (simp add: bl flip: power_Suc)
    also have "\<dots> \<le> 2 * (n div 2)"
      using h by simp
    also have "\<dots> \<le> n"
      by simp
    finally have lo: "2 ^ (bit_length n - 1) \<le> n" .
    have "n < 2 * (n div 2) + 2"
      by arith
    also have "\<dots> \<le> 2 * 2 ^ bit_length (n div 2)"
      using h by simp
    finally have hi: "n < 2 ^ bit_length n"
      by (simp add: bl)
    from lo hi show ?thesis ..
  qed
qed

lemma round_half_even_cases:
  "round_half_even q = \<lfloor>q\<rfloor> \<or> round_half_even q = \<lfloor>q\<rfloor> + 1"
  by (simp add: round_half_even_def Let_def)

lemma round_half_even_bounds:
  "q - 1 / 2 \<le> of_int (round_half_even q) \<and> of_int (round_half_even q) \<le> q + 1 / 2"
proof -
  define f where "f = \<lfloor>q\<rfloor>"
  define d where "d = q - of_int f"
  have d: "0 \<le> d" "d < 1" "q = of_int f + d"
    unfolding d_def f_def by linarith+
  have "round_half_even q =
      (if d < 1 / 2 then f else if 1 / 2 < d then f + 1 else if even f then f else f + 1)"
    by (simp add: round_half_even_def Let_def d_def f_def)
  then show ?thesis
    using d by auto
qed

lemma round_half_even_of_int [simp]: "round_half_even (of_int k) = k"
  by (simp add: round_half_even_def)

lemma round_half_even_mono:
  assumes "q \<le> q'"
  shows "round_half_even q \<le> round_half_even q'"
proof (cases "\<lfloor>q\<rfloor> = \<lfloor>q'\<rfloor>")
  case True
  then show ?thesis
    using assms by (auto simp: round_half_even_def Let_def)
next
  case False
  with assms have "\<lfloor>q\<rfloor> + 1 \<le> \<lfloor>q'\<rfloor>"
    using floor_mono [of q q'] by linarith
  moreover have "round_half_even q \<le> \<lfloor>q\<rfloor> + 1"
    using round_half_even_cases [of q] by linarith
  moreover have "\<lfloor>q'\<rfloor> \<le> round_half_even q'"
    using round_half_even_cases [of q'] by linarith
  ultimately show ?thesis
    by linarith
qed

lemma bit_length_pos: "0 < n \<Longrightarrow> 0 < bit_length n"
  by (subst bit_length.simps) simp

lemma ilog2_bounds:
  assumes "0 < x"
  shows "2 powi (ilog2 x) \<le> x \<and> x < 2 powi (ilog2 x + 1)"
proof (cases "1 \<le> x")
  case True
  define n where "n = \<lfloor>x\<rfloor>"
  have n: "0 < n" "rat_of_int n \<le> x" "x < rat_of_int n + 1"
    using True unfolding n_def by (simp_all) linarith+
  from bit_length_bounds [OF n(1)] bit_length_pos [OF n(1)]
  have b: "2 ^ (bit_length n - 1) \<le> n" "n + 1 \<le> 2 ^ bit_length n" "0 < bit_length n"
    by simp_all
  have e: "ilog2 x = int (bit_length n - 1)"
    using True b(3) by (simp add: ilog2_def n_def)
  have "rat_of_int (2 ^ (bit_length n - 1)) \<le> rat_of_int n"
    using b(1) by (simp only: of_int_le_iff)
  then have "(2::rat) ^ (bit_length n - 1) \<le> rat_of_int n"
    by simp
  moreover have "2 powi (ilog2 x) = (2::rat) ^ (bit_length n - 1)"
    by (simp add: e)
  ultimately have lo: "2 powi (ilog2 x) \<le> x"
    using n(2) by linarith
  have "rat_of_int (n + 1) \<le> rat_of_int (2 ^ bit_length n)"
    using b(2) by (simp only: of_int_le_iff)
  then have up: "rat_of_int n + 1 \<le> 2 ^ bit_length n"
    by simp
  have "ilog2 x + 1 = int (bit_length n)"
    using b(3) by (simp add: e)
  then have "2 powi (ilog2 x + 1) = (2::rat) ^ bit_length n"
    by simp
  then have hi: "x < 2 powi (ilog2 x + 1)"
    using n(3) up by linarith
  from lo hi show ?thesis ..
next
  case False
  define y where "y = 1 / x"
  define n where "n = \<lfloor>y\<rfloor>"
  define k where "k = int (bit_length n) - 1"
  have y: "1 < y" "0 < y" "x = 1 / y"
    using assms False by (simp_all add: y_def)
  have n: "0 < n" "rat_of_int n \<le> y" "y < rat_of_int n + 1"
    using y(1) unfolding n_def by (simp_all) linarith+
  from bit_length_bounds [OF n(1)] bit_length_pos [OF n(1)]
  have b: "2 ^ (bit_length n - 1) \<le> n" "n + 1 \<le> 2 ^ bit_length n" "0 < bit_length n"
    by simp_all
  have k: "0 \<le> k" "k = int (bit_length n - 1)" "k + 1 = int (bit_length n)"
    using b(3) by (simp_all add: k_def)
  have "rat_of_int (2 ^ (bit_length n - 1)) \<le> rat_of_int n"
    using b(1) by (simp only: of_int_le_iff)
  then have "(2::rat) ^ (bit_length n - 1) \<le> rat_of_int n"
    by simp
  moreover have "2 powi k = (2::rat) ^ (bit_length n - 1)"
    by (simp add: k(2))
  ultimately have ylo: "2 powi k \<le> y"
    using n(2) by linarith
  have "rat_of_int (n + 1) \<le> rat_of_int (2 ^ bit_length n)"
    using b(2) by (simp only: of_int_le_iff)
  then have up: "rat_of_int n + 1 \<le> 2 ^ bit_length n"
    by simp
  have "2 powi (k + 1) = (2::rat) ^ bit_length n"
    by (simp add: k(3))
  then have yhi: "y < 2 powi (k + 1)"
    using n(3) up by linarith
  have p: "0 < (2::rat) powi k" "0 < (2::rat) powi (k + 1)"
    by simp_all
  have xhi: "x \<le> 2 powi (- k)"
  proof -
    have "1 / y \<le> 1 / 2 powi k"
      by (rule divide_left_mono [OF ylo _ mult_pos_pos [OF y(2) p(1)]]) simp
    then show ?thesis
      by (simp add: y(3) power_int_minus_divide)
  qed
  have xlo: "2 powi (- k - 1) < x"
  proof -
    have "- k - 1 = - (k + 1)"
      by simp
    then have "2 powi (- k - 1) = 1 / (2::rat) powi (k + 1)"
      by (simp only: power_int_minus_divide)
    also have "\<dots> < 1 / y"
      by (rule divide_strict_left_mono [OF yhi _ mult_pos_pos [OF p(2) y(2)]]) simp
    finally show ?thesis
      by (simp add: y(3))
  qed
  have e: "ilog2 x = (if x * 2 powi k = 1 then - k else - k - 1)"
    using False by (simp add: ilog2_def Let_def k_def n_def y_def)
  show ?thesis
  proof (cases "x * 2 powi k = 1")
    case True
    then have xe: "x = 2 powi (- k)"
      using p(1) by (simp add: power_int_minus field_simps)
    have lt: "(2::rat) powi (- k) < 2 powi (- k + 1)"
      by (rule power_int_strict_increasing) simp_all
    have ev: "ilog2 x = - k"
      using True by (simp add: e)
    show ?thesis
      unfolding ev using xe lt by (intro conjI; linarith)
  next
    case False
    then have "x \<noteq> 2 powi (- k)"
      using p(1) by (auto simp: power_int_minus field_simps)
    then have lt: "x < 2 powi (- k)"
      using xhi by simp
    have ev: "ilog2 x = - k - 1" "- k - 1 + 1 = - k"
      using False by (simp_all add: e)
    show ?thesis
      unfolding ev using xlo lt by (intro conjI; linarith)
  qed
qed

lemma ilog2_mono:
  assumes "0 < x" and "x \<le> y"
  shows "ilog2 x \<le> ilog2 y"
proof (rule ccontr)
  assume "\<not> ilog2 x \<le> ilog2 y"
  then have "ilog2 y + 1 \<le> ilog2 x"
    by simp
  then have "(2::rat) powi (ilog2 y + 1) \<le> 2 powi (ilog2 x)"
    by (rule power_int_increasing) simp
  moreover have "2 powi (ilog2 x) \<le> x" "y < 2 powi (ilog2 y + 1)"
    using ilog2_bounds [of x] ilog2_bounds [of y] assms by simp_all
  ultimately show False
    using assms(2) by linarith
qed

lemma float_round_0 [simp]: "float_round 0 = 0"
  by (simp add: float_round_def)

lemma float_round_minus: "float_round (- x) = - float_round x"
  by (simp add: float_round_def Let_def sgn_minus)

lemma float_round_decomp:
  assumes "0 < x"
  obtains u where "0 < u" and "u = 2 powi (ilog2 x - 52)"
    and "2 ^ 52 * u \<le> x" and "x < 2 ^ 53 * u"
    and "float_round x = of_int (round_half_even (x / u)) * u"
proof -
  define u :: rat where "u = 2 powi (ilog2 x - 52)"
  have u: "0 < u"
    by (simp add: u_def)
  have "(2::rat) powi (ilog2 x - 52 + 52) = 2 powi (ilog2 x - 52) * 2 powi 52"
    by (rule power_int_add) simp
  then have P: "(2::rat) powi (ilog2 x) = 2 ^ 52 * u"
    by (simp add: u_def)
  have "(2::rat) powi (ilog2 x + 1) = 2 powi (ilog2 x) * 2"
    by (rule power_int_add_1) simp
  then have P1: "(2::rat) powi (ilog2 x + 1) = 2 ^ 53 * u"
    by (simp add: P)
  have lo: "2 ^ 52 * u \<le> x" and hi: "x < 2 ^ 53 * u"
    using ilog2_bounds [OF assms] by (simp_all only: P P1)
  have fr: "float_round x = of_int (round_half_even (x / u)) * u"
    using assms by (simp add: float_round_def Let_def u_def)
  show thesis
    using that [OF u u_def lo hi fr] .
qed

lemma round_half_even_between:
  assumes "of_int a \<le> q" and "q \<le> of_int b"
  shows "a \<le> round_half_even q \<and> round_half_even q \<le> b"
  using round_half_even_mono [OF assms(1)] round_half_even_mono [OF assms(2)] by simp

lemma float_round_binade:
  assumes "0 < x"
  shows "2 powi (ilog2 x) \<le> float_round x \<and> float_round x \<le> 2 powi (ilog2 x + 1)"
proof -
  obtain u where u: "0 < u" "u = 2 powi (ilog2 x - 52)" "2 ^ 52 * u \<le> x" "x < 2 ^ 53 * u"
    "float_round x = of_int (round_half_even (x / u)) * u"
    using float_round_decomp [OF assms] by blast
  define r where "r = round_half_even (x / u)"
  have q: "rat_of_int (2 ^ 52) \<le> x / u" "x / u \<le> rat_of_int (2 ^ 53)"
    using u(1,3,4) by (simp_all add: pos_le_divide_eq pos_divide_le_eq)
  have r: "2 ^ 52 \<le> r" "r \<le> 2 ^ 53"
    using round_half_even_between [OF q] by (simp_all add: r_def)
  have "rat_of_int (2 ^ 52) \<le> of_int r" "rat_of_int r \<le> of_int (2 ^ 53)"
    using r by (simp_all only: of_int_le_iff)
  then have rr: "2 ^ 52 \<le> rat_of_int r" "rat_of_int r \<le> 2 ^ 53"
    by simp_all
  have "2 ^ 52 * u \<le> of_int r * u" "of_int r * u \<le> 2 ^ 53 * u"
    using rr u(1) by (simp_all add: mult_right_mono)
  then have fr: "2 ^ 52 * u \<le> float_round x" "float_round x \<le> 2 ^ 53 * u"
    by (simp_all only: u(5) r_def)
  have "(2::rat) powi (ilog2 x - 52 + 52) = 2 powi (ilog2 x - 52) * 2 powi 52"
    by (rule power_int_add) simp
  then have P: "(2::rat) powi (ilog2 x) = 2 ^ 52 * u"
    by (simp add: u(2))
  have "(2::rat) powi (ilog2 x + 1) = 2 powi (ilog2 x) * 2"
    by (rule power_int_add_1) simp
  then have P1: "(2::rat) powi (ilog2 x + 1) = 2 ^ 53 * u"
    by (simp add: P)
  show ?thesis
    using fr by (simp only: P P1)
qed

lemma float_round_mono_pos:
  assumes "0 < x" and "x \<le> y"
  shows "float_round x \<le> float_round y"
proof (cases "ilog2 x = ilog2 y")
  case True
  have y: "0 < y"
    using assms by simp
  obtain u where u: "0 < u" "u = 2 powi (ilog2 x - 52)"
    "float_round x = of_int (round_half_even (x / u)) * u"
    using float_round_decomp [OF assms(1)] by blast
  obtain v where v: "v = 2 powi (ilog2 y - 52)"
    "float_round y = of_int (round_half_even (y / v)) * v"
    using float_round_decomp [OF y] by blast
  have uv: "v = u"
    by (simp add: u(2) v(1) True)
  have "x / u \<le> y / u"
    using assms(2) u(1) by (simp add: divide_right_mono)
  then have "round_half_even (x / u) \<le> round_half_even (y / u)"
    by (rule round_half_even_mono)
  then have "rat_of_int (round_half_even (x / u)) \<le> of_int (round_half_even (y / u))"
    by (simp only: of_int_le_iff)
  then have "of_int (round_half_even (x / u)) * u \<le> of_int (round_half_even (y / u)) * u"
    using u(1) by (simp add: mult_right_mono)
  then show ?thesis
    by (simp only: u(3) v(2) uv)
next
  case False
  have y: "0 < y"
    using assms by simp
  from False ilog2_mono [OF assms] have "ilog2 x + 1 \<le> ilog2 y"
    by simp
  then have "(2::rat) powi (ilog2 x + 1) \<le> 2 powi (ilog2 y)"
    by (rule power_int_increasing) simp
  then show ?thesis
    using float_round_binade [OF assms(1)] float_round_binade [OF y] by linarith
qed

lemma float_round_nonneg: "0 \<le> x \<Longrightarrow> 0 \<le> float_round x"
proof (cases "x = 0")
  case False
  assume "0 \<le> x"
  with False have x: "0 < x"
    by simp
  have "(0::rat) \<le> 2 powi (ilog2 x)"
    by simp
  then show ?thesis
    using float_round_binade [OF x] by linarith
qed simp

lemma float_round_mono:
  assumes "x \<le> y"
  shows "float_round x \<le> float_round y"
proof -
  consider "0 < x" | "x \<le> 0" "0 \<le> y" | "y < 0"
    using assms by linarith
  then show ?thesis
  proof cases
    case 1
    then show ?thesis
      using assms by (rule float_round_mono_pos)
  next
    case 2
    have "0 \<le> float_round (- x)" "0 \<le> float_round y"
      using 2 by (simp_all add: float_round_nonneg)
    then show ?thesis
      by (simp add: float_round_minus)
  next
    case 3
    have "float_round (- y) \<le> float_round (- x)"
      using 3 assms by (intro float_round_mono_pos) simp_all
    then show ?thesis
      by (simp add: float_round_minus)
  qed
qed

lemma float_round_error_pos:
  assumes "0 < x"
  shows "x * (1 - 1 / 2 ^ 53) \<le> float_round x \<and> float_round x \<le> x * (1 + 1 / 2 ^ 53)"
proof -
  obtain u where u: "0 < u" "2 ^ 52 * u \<le> x"
    "float_round x = of_int (round_half_even (x / u)) * u"
    using float_round_decomp [OF assms] by blast
  define R where "R = rat_of_int (round_half_even (x / u))"
  have r: "x / u - 1 / 2 \<le> R" "R \<le> x / u + 1 / 2"
    using round_half_even_bounds [of "x / u"] by (simp_all add: R_def)
  have xu: "x / u * u = x"
    using u(1) by simp
  have "(x / u - 1 / 2) * u \<le> R * u" "R * u \<le> (x / u + 1 / 2) * u"
    using r u(1) by (simp_all only: mult_right_mono less_imp_le)
  then have "x / u * u - u / 2 \<le> R * u" "R * u \<le> x / u * u + u / 2"
    by (simp_all add: left_diff_distrib distrib_right)
  then have b: "x - u / 2 \<le> float_round x" "float_round x \<le> x + u / 2"
    by (simp_all only: xu u(3) R_def)
  have c: "u / 2 \<le> x / 9007199254740992"
    using u(2) by simp
  have "x * (1 - 1 / 9007199254740992) \<le> float_round x"
    "float_round x \<le> x * (1 + 1 / 9007199254740992)"
    using b c by (simp_all add: algebra_simps)
  then show ?thesis
    by simp
qed

lemma float_round_of_int:
  assumes "\<bar>k\<bar> < 2 ^ 53"
  shows "float_round (of_int k) = of_int k"
proof -
  have pos: "float_round (of_int j) = of_int j" if j: "0 < j" "j < 2 ^ 53" for j :: int
  proof -
    define x where "x = rat_of_int j"
    have "rat_of_int j < of_int (2 ^ 53)"
      using j(2) by (simp only: of_int_less_iff)
    then have x: "0 < x" "x < 2 ^ 53"
      using j(1) by (simp_all add: x_def)
    obtain u where u: "0 < u" "u = 2 powi (ilog2 x - 52)" "2 ^ 52 * u \<le> x"
      "float_round x = of_int (round_half_even (x / u)) * u"
      using float_round_decomp [OF x(1)] by blast
    have "2 ^ 52 * u < 2 ^ 53"
      using u(3) x(2) by linarith
    then have "u < 2"
      by simp
    then have "(2::rat) powi (ilog2 x - 52) < 2 powi 1"
      by (simp add: u(2))
    then have e: "ilog2 x - 52 \<le> 0"
      using power_int_le_imp_less_exp [of "2::rat" "ilog2 x - 52" 1] by simp
    define n where "n = nat (52 - ilog2 x)"
    have "- (ilog2 x - 52) = int n"
      using e by (simp add: n_def)
    then have "(2::rat) powi (- (ilog2 x - 52)) = 2 ^ n"
      by (simp only: power_int_of_nat)
    then have un: "1 / u = 2 ^ n"
      by (simp only: u(2) power_int_minus_divide)
    have "x / u = x * (1 / u)"
      by simp
    also have "\<dots> = of_int (j * 2 ^ n)"
      by (simp add: un x_def)
    finally have q: "x / u = of_int (j * 2 ^ n)" .
    have "float_round x = of_int (j * 2 ^ n) * u"
      by (simp only: u(4) q round_half_even_of_int)
    also have "\<dots> = x * (2 ^ n * u)"
      by (simp add: x_def)
    also have "2 ^ n * u = 1"
      using un u(1) by (simp add: field_simps)
    finally show ?thesis
      by (simp add: x_def)
  qed
  consider "0 < k" | "k = 0" | "k < 0"
    by linarith
  then show ?thesis
  proof cases
    case 1
    then show ?thesis
      using assms by (intro pos) simp_all
  next
    case 2
    then show ?thesis
      by simp
  next
    case 3
    then have "float_round (of_int (- k)) = of_int (- k)"
      using assms by (intro pos) simp_all
    then show ?thesis
      by (simp only: of_int_minus float_round_minus)
  qed
qed

lemma total_seconds_le_int:
  assumes "\<bar>m\<bar> < 2 ^ 53" and "td \<le> m * 1000000"
  shows "total_seconds td \<le> of_int m"
proof -
  have "rat_of_int td \<le> of_int (m * 1000000)"
    using assms(2) by (simp only: of_int_le_iff)
  then have "rat_of_int td / 1000000 \<le> of_int m"
    by simp
  then have "float_round (rat_of_int td / 1000000) \<le> float_round (of_int m)"
    by (rule float_round_mono)
  then show ?thesis
    by (simp only: total_seconds_def float_round_of_int [OF assms(1)])
qed

lemma total_seconds_lower:
  assumes "0 \<le> m" and "m * 1000000 < td"
  shows "(of_int m + 1 / 1000000) * (9007199254740991 / 9007199254740992) \<le> total_seconds td"
proof -
  define x where "x = rat_of_int td / 1000000"
  have "m * 1000000 + 1 \<le> td"
    using assms(2) by simp
  then have "rat_of_int (m * 1000000 + 1) \<le> of_int td"
    by (simp only: of_int_le_iff)
  then have x: "of_int m + 1 / 1000000 \<le> x"
    by (simp add: x_def field_simps)
  have m: "0 \<le> rat_of_int m"
    using assms(1) by simp
  have pos: "0 < x"
    using x m by linarith
  have "x * (1 - 1 / 2 ^ 53) \<le> float_round x"
    using float_round_error_pos [OF pos] by simp
  then have "x * (9007199254740991 / 9007199254740992) \<le> float_round x"
    by simp
  moreover have "(of_int m + 1 / 1000000) * (9007199254740991 / 9007199254740992)
      \<le> x * (9007199254740991 / 9007199254740992)"
    using x by (intro mult_right_mono) simp_all
  ultimately show ?thesis
    unfolding total_seconds_def x_def [symmetric] by linarith
qed

lemma total_seconds_gt_iff:
  assumes "0 \<le> m" and "m \<le> 2 ^ 32"
  shows "of_int m < total_seconds td \<longleftrightarrow> m * 1000000 < td"
proof
  assume "of_int m < total_seconds td"
  show "m * 1000000 < td"
  proof (rule ccontr)
    assume "\<not> m * 1000000 < td"
    then have "td \<le> m * 1000000"
      by simp
    moreover have "\<bar>m\<bar> < 2 ^ 53"
      using assms by simp
    ultimately have "total_seconds td \<le> of_int m"
      by (intro total_seconds_le_int)
    with \<open>of_int m < total_seconds td\<close> show False
      by simp
  qed
next
  assume "m * 1000000 < td"
  from total_seconds_lower [OF assms(1) this]
  have l: "(of_int m + 1 / 1000000) * (9007199254740991 / 9007199254740992) \<le> total_seconds td" .
  have "rat_of_int m \<le> of_int (2 ^ 32)" "0 \<le> rat_of_int m"
    using assms by (simp_all only: of_int_le_iff of_int_0_le_iff)
  then have "rat_of_int m \<le> 4294967296" "0 \<le> rat_of_int m"
    by simp_all
  then show "of_int m < total_seconds td"
    using l by (simp add: algebra_simps)
qed

lemma minutes_left_le_iff:
  assumes "0 \<le> m" and "m \<le> 2 ^ 31"
  shows "float_round (total_seconds td / 60) \<le> float_round (of_int m / 60)
    \<longleftrightarrow> td \<le> m * 1000000"
proof
  assume "td \<le> m * 1000000"
  moreover have "\<bar>m\<bar> < 2 ^ 53"
    using assms by simp
  ultimately have "total_seconds td \<le> of_int m"
    by (intro total_seconds_le_int)
  then have "total_seconds td / 60 \<le> of_int m / 60"
    by simp
  then show "float_round (total_seconds td / 60) \<le> float_round (of_int m / 60)"
    by (rule float_round_mono)
next
  assume le: "float_round (total_seconds td / 60) \<le> float_round (of_int m / 60)"
  show "td \<le> m * 1000000"
  proof (rule ccontr)
    assume "\<not> td \<le> m * 1000000"
    then have gt: "m * 1000000 < td"
      by simp
    define a where "a = total_seconds td"
    define M where "M = rat_of_int m"
    have "rat_of_int m \<le> of_int (2 ^ 31)" "0 \<le> rat_of_int m"
      using assms by (simp_all only: of_int_le_iff of_int_0_le_iff)
    then have M: "M \<le> 2147483648" "0 \<le> M"
      by (simp_all add: M_def)
    have a: "(M + 1 / 1000000) * (9007199254740991 / 9007199254740992) \<le> a"
      using total_seconds_lower [OF assms(1) gt] by (simp add: a_def M_def)
    have apos: "0 < a / 60"
      using a M by simp
    have "a / 60 * (1 - 1 / 2 ^ 53) \<le> float_round (a / 60)"
      using float_round_error_pos [OF apos] by simp
    then have b: "a / 60 * (9007199254740991 / 9007199254740992) \<le> float_round (a / 60)"
      by simp
    have r: "float_round (M / 60) \<le> M / 60 * (9007199254740993 / 9007199254740992)"
    proof (cases "M = 0")
      case True
      then show ?thesis
        by simp
    next
      case False
      then have "0 < M / 60"
        using M(2) by simp
      from float_round_error_pos [OF this] show ?thesis
        by simp
    qed
    have "float_round (M / 60) < float_round (a / 60)"
      using a b r M by (simp add: algebra_simps)
    with le show False
      by (simp add: a_def M_def)
  qed
qed

lemma margin_minutes_no_overflow:
  assumes "0 \<le> m" and "m \<le> 2 ^ 31"
  shows "\<bar>float_round (of_int m / 60)\<bar> < 2 ^ 1024"
proof -
  have "rat_of_int m / 60 \<le> of_int m" "0 \<le> rat_of_int m / 60"
    using assms(1) by simp_all
  then have "float_round (of_int m / 60) \<le> float_round (of_int m)"
    "0 \<le> float_round (of_int m / 60)"
    by (simp_all add: float_round_mono float_round_nonneg)
  moreover have "float_round (rat_of_int m) = of_int m"
    using assms by (intro float_round_of_int) simp
  moreover have "rat_of_int m \<le> of_int (2 ^ 31)"
    using assms(2) by (simp only: of_int_le_iff)
  ultimately have "0 \<le> float_round (of_int m / 60)" "float_round (of_int m / 60) \<le> 2 ^ 31"
    by simp_all
  then show ?thesis
    by simp
qed

subsection \<open>The comparisons of the token manager in exact arithmetic\<close>

text \<open>
  For a refresh margin that is not negative and at most \<open>2 ^ 31\<close> s (68 years; the
  program only ever uses 300 s), the rounding of \<^verbatim>\<open>total_seconds()\<close> and of the
  divisions by 60 does not change the outcome of either comparison, and the division
  of the margin does not overflow. For \<^verbatim>\<open>is_token_valid\<close> the same holds up to
  \<open>2 ^ 32\<close> s.
\<close>

lemma is_token_valid_exact:
  assumes "0 \<le> token_refresh_margin (config s)"
    and "token_refresh_margin (config s) \<le> 2 ^ 32"
  shows "is_token_valid e s =
     (case current_token s of
        None \<Rightarrow> (False, s)
      | Some tok \<Rightarrow>
          (token_refresh_margin (config s) * 1000000 < expires_at tok - clock e (clock_reads s),
           s\<lparr> clock_reads := Suc (clock_reads s) \<rparr>))"
  by (simp add: is_token_valid_def datetime_now_def total_seconds_gt_iff [OF assms]
      split: option.splits)

lemma int_truediv_margin:
  assumes "0 \<le> m" and "m \<le> 2 ^ 31"
  shows "int_truediv m 60 = Inr (float_round (of_int m / 60))"
proof -
  have "\<not> 2 ^ 1024 \<le> \<bar>float_round (rat_of_int m / 60)\<bar>"
    using margin_minutes_no_overflow [OF assms] by (simp only: not_le)
  then show ?thesis
    by (simp add: int_truediv_def Let_def)
qed

lemma refresh_token_if_needed_exact:
  assumes "0 \<le> token_refresh_margin (config s)"
    and "token_refresh_margin (config s) \<le> 2 ^ 31"
  shows "refresh_token_if_needed e s =
     (case current_token s of
        None \<Rightarrow> (Inr (fst (authenticate e s)), snd (authenticate e s))
      | Some tok \<Rightarrow>
          if expires_at tok - clock e (clock_reads s)
               \<le> token_refresh_margin (config s) * 1000000
          then
            (case getslice (token tok) of
               Inl ex \<Rightarrow> (Inl ex, s\<lparr> clock_reads := Suc (clock_reads s) \<rparr>)
             | Inr u \<Rightarrow>
                 (Inr (fst (authenticate e (s\<lparr> clock_reads := Suc (clock_reads s) \<rparr>))),
                  snd (authenticate e (s\<lparr> clock_reads := Suc (clock_reads s) \<rparr>))))
          else (Inr True, s\<lparr> clock_reads := Suc (clock_reads s) \<rparr>))"
  by (simp add: refresh_token_if_needed_def datetime_now_def float_div_int_def
      int_truediv_margin [OF assms] minutes_left_le_iff [OF assms] case_prod_beta
      split: option.splits sum.splits)

text \<open>
  Beyond that range the rounding shows. With a margin of \<open>2 ^ 34\<close> s and the clock at 0,
  a token with one microsecond more than the margin left is not valid, and the gate
  renews it: \<^verbatim>\<open>total_seconds()\<close> rounds 17179869184.000001 to 17179869184.0.
\<close>

lemma rounding_beyond_the_range:
  "total_seconds 17179869184000001 = 17179869184 \<and>
   \<not> fst (is_token_valid stub_env
      ((agent_with_token 17179869184000001)
         \<lparr> config := test_config\<lparr> token_refresh_margin := 17179869184 \<rparr> \<rparr>)) \<and>
   login_posts (snd (refresh_token_if_needed stub_env
      ((agent_with_token 17179869184000001)
         \<lparr> config := test_config\<lparr> token_refresh_margin := 17179869184 \<rparr> \<rparr>))) = 1"
  by code_simp

subsection \<open>Auxiliary facts\<close>

text \<open>
  \<^verbatim>\<open>authenticate\<close> touches the token, the header, the clock and the count of login
  requests, and nothing else.
\<close>

lemma authenticate_frame:
  "(snd (authenticate e s))\<lparr> current_token := k, authorization := a,
      clock_reads := c, login_posts := l \<rparr> =
   s\<lparr> current_token := k, authorization := a, clock_reads := c, login_posts := l \<rparr>"
  unfolding authenticate_def authenticate_try_def datetime_now_def Let_def
  by (auto split: reply.splits option.splits sum.splits prod.splits if_splits)

lemma login_posts_authenticate [simp]:
  "login_posts (snd (authenticate e s)) = Suc (login_posts s)"
  unfolding authenticate_def authenticate_try_def datetime_now_def Let_def
  by (auto split: reply.splits option.splits sum.splits prod.splits if_splits)

lemma authenticate_fields [simp]:
  "batch_posts (snd (authenticate e s)) = batch_posts s"
  "heartbeat_posts (snd (authenticate e s)) = heartbeat_posts s"
  "config_gets (snd (authenticate e s)) = config_gets s"
  "directory_gets (snd (authenticate e s)) = directory_gets s"
  "sleeps (snd (authenticate e s)) = sleeps s"
  "cycles (snd (authenticate e s)) = cycles s"
  "running (snd (authenticate e s)) = running s"
  "config (snd (authenticate e s)) = config s"
  "last_heartbeat (snd (authenticate e s)) = last_heartbeat s"
  "last_config_refresh (snd (authenticate e s)) = last_config_refresh s"
  using arg_cong [OF authenticate_frame [where e=e and s=s], of batch_posts]
        arg_cong [OF authenticate_frame [where e=e and s=s], of heartbeat_posts]
        arg_cong [OF authenticate_frame [where e=e and s=s], of config_gets]
        arg_cong [OF authenticate_frame [where e=e and s=s], of directory_gets]
        arg_cong [OF authenticate_frame [where e=e and s=s], of sleeps]
        arg_cong [OF authenticate_frame [where e=e and s=s], of cycles]
        arg_cong [OF authenticate_frame [where e=e and s=s], of running]
        arg_cong [OF authenticate_frame [where e=e and s=s], of config]
        arg_cong [OF authenticate_frame [where e=e and s=s], of last_heartbeat]
        arg_cong [OF authenticate_frame [where e=e and s=s], of last_config_refresh]
  by simp_all

text \<open>The token gate adds at most the effects of one \<^verbatim>\<open>authenticate\<close> and one clock reading.\<close>

lemma refresh_frame:
  "(snd (refresh_token_if_needed e s))\<lparr> current_token := current_token s,
      authorization := authorization s, clock_reads := clock_reads s,
      login_posts := login_posts s \<rparr> = s"
  unfolding refresh_token_if_needed_def datetime_now_def Let_def
  by (simp add: authenticate_frame case_prod_beta split: option.splits sum.splits)

lemma refresh_fields [simp]:
  "batch_posts (snd (refresh_token_if_needed e s)) = batch_posts s"
  "heartbeat_posts (snd (refresh_token_if_needed e s)) = heartbeat_posts s"
  "config_gets (snd (refresh_token_if_needed e s)) = config_gets s"
  "directory_gets (snd (refresh_token_if_needed e s)) = directory_gets s"
  "sleeps (snd (refresh_token_if_needed e s)) = sleeps s"
  "cycles (snd (refresh_token_if_needed e s)) = cycles s"
  "running (snd (refresh_token_if_needed e s)) = running s"
  "config (snd (refresh_token_if_needed e s)) = config s"
  "last_heartbeat (snd (refresh_token_if_needed e s)) = last_heartbeat s"
  "last_config_refresh (snd (refresh_token_if_needed e s)) = last_config_refresh s"
  using arg_cong [OF refresh_frame [where e=e and s=s], of batch_posts]
        arg_cong [OF refresh_frame [where e=e and s=s], of heartbeat_posts]
        arg_cong [OF refresh_frame [where e=e and s=s], of config_gets]
        arg_cong [OF refresh_frame [where e=e and s=s], of directory_gets]
        arg_cong [OF refresh_frame [where e=e and s=s], of sleeps]
        arg_cong [OF refresh_frame [where e=e and s=s], of cycles]
        arg_cong [OF refresh_frame [where e=e and s=s], of running]
        arg_cong [OF refresh_frame [where e=e and s=s], of config]
        arg_cong [OF refresh_frame [where e=e and s=s], of last_heartbeat]
        arg_cong [OF refresh_frame [where e=e and s=s], of last_config_refresh]
  by simp_all

lemma clock_reads_authenticate:
  "clock_reads s \<le> clock_reads (snd (authenticate e s))"
  unfolding authenticate_def authenticate_try_def datetime_now_def Let_def
  by (auto split: reply.splits option.splits sum.splits prod.splits if_splits)

lemma clock_reads_refresh:
  "clock_reads s \<le> clock_reads (snd (refresh_token_if_needed e s))"
proof -
  have "clock_reads s \<le> clock_reads (snd (authenticate e (s\<lparr> clock_reads := Suc (clock_reads s) \<rparr>)))"
    using clock_reads_authenticate [of "s\<lparr> clock_reads := Suc (clock_reads s) \<rparr>" e] by simp
  then show ?thesis
    unfolding refresh_token_if_needed_def datetime_now_def Let_def
    by (simp add: clock_reads_authenticate case_prod_beta split: option.splits sum.splits)
qed

subsection \<open>Evaluating the concrete inputs\<close>

lemmas fixture_defs =
  stub_env_def test_config_def AgentConfig_init_def ZenMonAgent_init_def agent_with_token_def
  login_body_def one_metric_def payload_interval_60_def timedelta_minutes_def

lemmas token_manager_defs =
  authenticate_def authenticate_try_def refresh_token_if_needed_exact is_token_valid_exact
  datetime_now_def getitem_def getslice_def Let_def

subsection \<open>Facts about the token gate and the transmission\<close>

text \<open>A successful \<^verbatim>\<open>authenticate\<close> installs a token that expires 480 minutes after the
  clock reading it made, and that token can be sliced.\<close>

lemma authenticate_success:
  assumes "fst (authenticate e s)"
  shows "\<exists>tok. current_token (snd (authenticate e s)) = Some tok \<and>
           expires_at tok = clock e (clock_reads s) + 28800000000 \<and>
           getslice (token tok) = Inr () \<and>
           clock_reads (snd (authenticate e s)) = Suc (clock_reads s)"
  using assms
  unfolding authenticate_def authenticate_try_def datetime_now_def Let_def timedelta_minutes_def
  by (auto split: reply.splits option.splits sum.splits prod.splits if_splits)

lemma refresh_fresh:
  assumes "current_token s = Some tok"
    and "0 \<le> token_refresh_margin (config s)"
    and "token_refresh_margin (config s) \<le> 2 ^ 31"
    and "token_refresh_margin (config s) * 1000000 < expires_at tok - clock e (clock_reads s)"
  shows "refresh_token_if_needed e s = (Inr True, s\<lparr> clock_reads := Suc (clock_reads s) \<rparr>)"
  using assms(1,4) by (simp add: refresh_token_if_needed_exact [OF assms(2,3)])

lemma refresh_no_token:
  "current_token s = None \<Longrightarrow>
   refresh_token_if_needed e s = (Inr (fst (authenticate e s)), snd (authenticate e s))"
  by (simp add: refresh_token_if_needed_def case_prod_beta)

lemma refresh_due:
  assumes "current_token s = Some tok"
    and "0 \<le> token_refresh_margin (config s)"
    and "token_refresh_margin (config s) \<le> 2 ^ 31"
    and "expires_at tok - clock e (clock_reads s) \<le> token_refresh_margin (config s) * 1000000"
    and "getslice (token tok) = Inr ()"
  shows "refresh_token_if_needed e s =
     (Inr (fst (authenticate e (s\<lparr> clock_reads := Suc (clock_reads s) \<rparr>))),
      snd (authenticate e (s\<lparr> clock_reads := Suc (clock_reads s) \<rparr>)))"
  using assms(1,4,5) by (simp add: refresh_token_if_needed_exact [OF assms(2,3)])

lemma login_posts_refresh:
  "login_posts s \<le> login_posts (snd (refresh_token_if_needed e s))"
  unfolding refresh_token_if_needed_def datetime_now_def Let_def
  by (simp add: case_prod_beta split: option.splits sum.splits)

lemma getslice_JStr [simp]: "getslice (JStr t) = Inr ()"
  by (simp add: getslice_def)

lemma authenticate_failure_keeps_credentials:
  assumes "\<forall>data v. login_reply e (login_posts s) = Response 200 (Some data) \<longrightarrow>
             getitem data ''token'' = Inr v \<longrightarrow> (\<exists>t. v = JStr t)"
    and "\<not> fst (authenticate e s)"
  shows "current_token (snd (authenticate e s)) = current_token s \<and>
         authorization (snd (authenticate e s)) = authorization s"
  using assms
  unfolding authenticate_def authenticate_try_def datetime_now_def Let_def
  by (auto split: reply.splits option.splits sum.splits prod.splits if_splits)

lemma is_token_valid_iff:
  assumes "0 \<le> token_refresh_margin (config s)"
    and "token_refresh_margin (config s) \<le> 2 ^ 32"
  shows "fst (is_token_valid e s) =
     (\<exists>tok. current_token s = Some tok \<and>
            token_refresh_margin (config s) * 1000000 < expires_at tok - clock e (clock_reads s))"
  by (simp add: is_token_valid_exact [OF assms] split: option.splits)

text \<open>\<^verbatim>\<open>send_metrics\<close> once the gate has let a non-empty batch through, and when it has not.\<close>

lemma send_metrics_at_after_gate:
  assumes "metrics \<noteq> []" and "refresh_token_if_needed e s = (Inr True, s1)"
  shows "send_metrics_at room e metrics s =
     (case batch_reply e (batch_posts s1) of
        Failed ex \<Rightarrow> (Inr False, s1\<lparr> batch_posts := Suc (batch_posts s1) \<rparr>)
      | Response status_code body \<Rightarrow>
          if status_code = 200 \<or> status_code = 201
          then (Inr True, s1\<lparr> batch_posts := Suc (batch_posts s1) \<rparr>)
          else if status_code = 401 then
            (if fst (authenticate e (s1\<lparr> batch_posts := Suc (batch_posts s1) \<rparr>)) then
               (case room of
                  0 \<Rightarrow> (Inr False, snd (authenticate e (s1\<lparr> batch_posts := Suc (batch_posts s1) \<rparr>)))
                | Suc room' \<Rightarrow>
                    (case send_metrics_at room' e metrics
                            (snd (authenticate e (s1\<lparr> batch_posts := Suc (batch_posts s1) \<rparr>))) of
                       (r, s4) \<Rightarrow> (case r of Inl ex \<Rightarrow> Inr False | Inr b \<Rightarrow> Inr b, s4)))
             else (Inr False, snd (authenticate e (s1\<lparr> batch_posts := Suc (batch_posts s1) \<rparr>))))
          else (Inr False, s1\<lparr> batch_posts := Suc (batch_posts s1) \<rparr>))"
  using assms
  apply (subst send_metrics_at.simps)
  apply (simp add: Let_def case_prod_beta split: reply.splits nat.splits sum.splits)
  done

lemma send_metrics_at_gate_closed:
  assumes "metrics \<noteq> []" and "refresh_token_if_needed e s = (r, s1)" and "r \<noteq> Inr True"
  shows "send_metrics_at room e metrics s = (r, s1)"
proof (cases r)
  case (Inl ex)
  then show ?thesis
    using assms by (subst send_metrics_at.simps) simp
next
  case (Inr ok)
  then show ?thesis
    using assms by (subst send_metrics_at.simps) simp
qed

text \<open>
  Repeated 401s. After each successful re-authentication the fresh token passes the
  gate of the nested call, provided the clock moves by less than the lifetime beyond
  the margin between two consecutive readings.
\<close>

lemma send_metrics_at_reentry:
  assumes auth: "fst (authenticate e s2)"
    and clk: "clock e (Suc (clock_reads s2)) - clock e (clock_reads s2)
               < 28800000000 - token_refresh_margin (config s2) * 1000000"
    and m: "0 \<le> token_refresh_margin (config s2)" "token_refresh_margin (config s2) \<le> 2 ^ 31"
  shows "refresh_token_if_needed e (snd (authenticate e s2)) =
           (Inr True, (snd (authenticate e s2))\<lparr> clock_reads := Suc (Suc (clock_reads s2)) \<rparr>)"
proof -
  define s3 where "s3 = snd (authenticate e s2)"
  from authenticate_success [OF auth] obtain tok where
    tok: "current_token s3 = Some tok"
      "expires_at tok = clock e (clock_reads s2) + 28800000000"
      "clock_reads s3 = Suc (clock_reads s2)"
    by (auto simp: s3_def)
  have cfg: "config s3 = config s2"
    by (simp add: s3_def)
  have fresh: "token_refresh_margin (config s3) * 1000000
      < expires_at tok - clock e (clock_reads s3)"
    using clk by (simp add: cfg tok)
  have "refresh_token_if_needed e s3 = (Inr True, s3\<lparr> clock_reads := Suc (clock_reads s3) \<rparr>)"
    using m by (intro refresh_fresh [OF tok(1) _ _ fresh]) (simp_all add: cfg)
  then show ?thesis
    by (simp add: s3_def [symmetric] tok(3))
qed

lemma send_metrics_at_retries:
  assumes ne: "metrics \<noteq> []"
    and m: "0 \<le> m" "m \<le> 2 ^ 31"
  shows "token_refresh_margin (config s) = m \<Longrightarrow>
         fst (refresh_token_if_needed e s) = Inr True \<Longrightarrow>
         k \<le> room \<Longrightarrow>
         (\<forall>s'. login_posts (snd (refresh_token_if_needed e s)) \<le> login_posts s' \<and>
               login_posts s' < login_posts (snd (refresh_token_if_needed e s)) + k \<longrightarrow>
               fst (authenticate e s')) \<Longrightarrow>
         (\<forall>j. clock_reads s \<le> j \<longrightarrow>
               clock e (Suc j) - clock e j < 28800000000 - m * 1000000) \<Longrightarrow>
         (\<forall>i<k. \<exists>b. batch_reply e (batch_posts s + i) = Response 401 b) \<Longrightarrow>
         (\<exists>b. batch_reply e (batch_posts s + k) = Response 200 b) \<Longrightarrow>
         \<exists>s'. send_metrics_at room e metrics s = (Inr True, s') \<and>
              batch_posts s' = batch_posts s + k + 1 \<and>
              login_posts s' = login_posts (snd (refresh_token_if_needed e s)) + k"
proof (induction k arbitrary: s room)
  case 0
  define s1 where "s1 = snd (refresh_token_if_needed e s)"
  have gate: "refresh_token_if_needed e s = (Inr True, s1)"
    using "0.prems"(2) by (simp add: s1_def prod_eq_iff)
  have bp: "batch_posts s1 = batch_posts s"
    by (simp add: s1_def)
  from "0.prems"(7) obtain b where "batch_reply e (batch_posts s1) = Response 200 b"
    by (auto simp: bp)
  then show ?case
    using send_metrics_at_after_gate [OF ne gate, of room] by (simp add: bp s1_def)
next
  case (Suc k)
  define s1 where "s1 = snd (refresh_token_if_needed e s)"
  define s2 where "s2 = s1\<lparr> batch_posts := Suc (batch_posts s1) \<rparr>"
  define s3 where "s3 = snd (authenticate e s2)"
  from Suc.prems(3) obtain room' where room: "room = Suc room'" "k \<le> room'"
    by (cases room) simp_all
  have gate: "refresh_token_if_needed e s = (Inr True, s1)"
    using Suc.prems(2) by (simp add: s1_def prod_eq_iff)
  have bp: "batch_posts s1 = batch_posts s"
    by (simp add: s1_def)
  from Suc.prems(6) obtain b where r: "batch_reply e (batch_posts s1) = Response 401 b"
    using bp by (metis add.right_neutral zero_less_Suc)
  have ok: "fst (authenticate e s2)"
    using Suc.prems(4) [rule_format, of s2] by (simp add: s2_def s1_def)
  have cr: "clock_reads s \<le> clock_reads s2"
    using clock_reads_refresh [of s e] by (simp add: s2_def s1_def)
  have cfg2: "token_refresh_margin (config s2) = m"
    using Suc.prems(1) by (simp add: s2_def s1_def)
  have gate3: "refresh_token_if_needed e s3 =
      (Inr True, s3\<lparr> clock_reads := Suc (Suc (clock_reads s2)) \<rparr>)"
    unfolding s3_def
    using Suc.prems(5) [rule_format, OF cr] m
    by (intro send_metrics_at_reentry [OF ok]) (simp_all add: cfg2)
  have cr3: "clock_reads s3 = Suc (clock_reads s2)"
    using authenticate_success [OF ok] by (auto simp: s3_def)
  have cfg3: "token_refresh_margin (config s3) = m"
    using cfg2 by (simp add: s3_def)
  have bp3: "batch_posts s3 = Suc (batch_posts s)"
    by (simp add: s3_def s2_def bp)
  have lp3: "login_posts s3 = Suc (login_posts s1)"
    by (simp add: s3_def s2_def)
  have "\<exists>s'. send_metrics_at room' e metrics s3 = (Inr True, s') \<and>
              batch_posts s' = batch_posts s3 + k + 1 \<and>
              login_posts s' = login_posts (snd (refresh_token_if_needed e s3)) + k"
  proof (rule Suc.IH [OF cfg3 _ room(2)])
    show "fst (refresh_token_if_needed e s3) = Inr True"
      by (simp add: gate3)
    show "\<forall>s'. login_posts (snd (refresh_token_if_needed e s3)) \<le> login_posts s' \<and>
               login_posts s' < login_posts (snd (refresh_token_if_needed e s3)) + k \<longrightarrow>
               fst (authenticate e s')"
      using Suc.prems(4) by (simp add: gate3 lp3 s1_def)
    show "\<forall>j. clock_reads s3 \<le> j \<longrightarrow>
               clock e (Suc j) - clock e j < 28800000000 - m * 1000000"
      using Suc.prems(5) cr by (simp add: cr3)
    show "\<forall>i<k. \<exists>b. batch_reply e (batch_posts s3 + i) = Response 401 b"
      using Suc.prems(6) by (simp add: bp3) (metis Suc_less_eq add_Suc_right)
    show "\<exists>b. batch_reply e (batch_posts s3 + k) = Response 200 b"
      using Suc.prems(7) by (simp add: bp3)
  qed
  then obtain s' where s': "send_metrics_at room' e metrics s3 = (Inr True, s')"
      "batch_posts s' = batch_posts s3 + k + 1"
      "login_posts s' = login_posts (snd (refresh_token_if_needed e s3)) + k"
    by blast
  have "send_metrics_at room e metrics s = (Inr True, s')"
    using send_metrics_at_after_gate [OF ne gate, of room] r ok s'(1)
    by (simp add: s2_def s3_def room(1))
  moreover have "batch_posts s' = batch_posts s + Suc k + 1"
    using s'(2) bp3 by simp
  moreover have "login_posts s' = login_posts (snd (refresh_token_if_needed e s)) + Suc k"
    using s'(3) lp3 by (simp add: gate3 s1_def)
  ultimately show ?case by blast
qed

text \<open>
  A 401 on every attempt: the calls nest until the stack has no room for another one;
  the \<open>RecursionError\<close> is caught and every activation returns \<open>False\<close>.
\<close>

lemma send_metrics_at_exhausts:
  assumes ne: "metrics \<noteq> []"
    and m: "0 \<le> m" "m \<le> 2 ^ 31"
  shows "token_refresh_margin (config s) = m \<Longrightarrow>
         fst (refresh_token_if_needed e s) = Inr True \<Longrightarrow>
         (\<forall>s'. login_posts (snd (refresh_token_if_needed e s)) \<le> login_posts s' \<and>
               login_posts s' \<le> login_posts (snd (refresh_token_if_needed e s)) + room \<longrightarrow>
               fst (authenticate e s')) \<Longrightarrow>
         (\<forall>j. clock_reads s \<le> j \<longrightarrow>
               clock e (Suc j) - clock e j < 28800000000 - m * 1000000) \<Longrightarrow>
         (\<forall>i\<le>room. \<exists>b. batch_reply e (batch_posts s + i) = Response 401 b) \<Longrightarrow>
         \<exists>s'. send_metrics_at room e metrics s = (Inr False, s') \<and>
              batch_posts s' = batch_posts s + room + 1 \<and>
              login_posts s' = login_posts (snd (refresh_token_if_needed e s)) + room + 1"
proof (induction room arbitrary: s)
  case 0
  define s1 where "s1 = snd (refresh_token_if_needed e s)"
  define s2 where "s2 = s1\<lparr> batch_posts := Suc (batch_posts s1) \<rparr>"
  have gate: "refresh_token_if_needed e s = (Inr True, s1)"
    using "0.prems"(2) by (simp add: s1_def prod_eq_iff)
  have bp: "batch_posts s1 = batch_posts s"
    by (simp add: s1_def)
  from "0.prems"(5) obtain b where r: "batch_reply e (batch_posts s1) = Response 401 b"
    by (auto simp: bp)
  have ok: "fst (authenticate e s2)"
    using "0.prems"(3) [rule_format, of s2] by (simp add: s2_def s1_def)
  have "send_metrics_at 0 e metrics s = (Inr False, snd (authenticate e s2))"
    using send_metrics_at_after_gate [OF ne gate, of 0] r ok by (simp add: s2_def)
  then show ?case
    by (simp add: s2_def bp s1_def)
next
  case (Suc room)
  define s1 where "s1 = snd (refresh_token_if_needed e s)"
  define s2 where "s2 = s1\<lparr> batch_posts := Suc (batch_posts s1) \<rparr>"
  define s3 where "s3 = snd (authenticate e s2)"
  have gate: "refresh_token_if_needed e s = (Inr True, s1)"
    using Suc.prems(2) by (simp add: s1_def prod_eq_iff)
  have bp: "batch_posts s1 = batch_posts s"
    by (simp add: s1_def)
  from Suc.prems(5) obtain b where r: "batch_reply e (batch_posts s1) = Response 401 b"
    using bp by (metis add.right_neutral le0)
  have ok: "fst (authenticate e s2)"
    using Suc.prems(3) [rule_format, of s2] by (simp add: s2_def s1_def)
  have cr: "clock_reads s \<le> clock_reads s2"
    using clock_reads_refresh [of s e] by (simp add: s2_def s1_def)
  have cfg2: "token_refresh_margin (config s2) = m"
    using Suc.prems(1) by (simp add: s2_def s1_def)
  have gate3: "refresh_token_if_needed e s3 =
      (Inr True, s3\<lparr> clock_reads := Suc (Suc (clock_reads s2)) \<rparr>)"
    unfolding s3_def
    using Suc.prems(4) [rule_format, OF cr] m
    by (intro send_metrics_at_reentry [OF ok]) (simp_all add: cfg2)
  have cr3: "clock_reads s3 = Suc (clock_reads s2)"
    using authenticate_success [OF ok] by (auto simp: s3_def)
  have cfg3: "token_refresh_margin (config s3) = m"
    using cfg2 by (simp add: s3_def)
  have bp3: "batch_posts s3 = Suc (batch_posts s)"
    by (simp add: s3_def s2_def bp)
  have lp3: "login_posts s3 = Suc (login_posts s1)"
    by (simp add: s3_def s2_def)
  have "\<exists>s'. send_metrics_at room e metrics s3 = (Inr False, s') \<and>
              batch_posts s' = batch_posts s3 + room + 1 \<and>
              login_posts s' = login_posts (snd (refresh_token_if_needed e s3)) + room + 1"
  proof (rule Suc.IH [OF cfg3])
    show "fst (refresh_token_if_needed e s3) = Inr True"
      by (simp add: gate3)
    show "\<forall>s'. login_posts (snd (refresh_token_if_needed e s3)) \<le> login_posts s' \<and>
               login_posts s' \<le> login_posts (snd (refresh_token_if_needed e s3)) + room \<longrightarrow>
               fst (authenticate e s')"
      using Suc.prems(3) by (simp add: gate3 lp3 s1_def)
    show "\<forall>j. clock_reads s3 \<le> j \<longrightarrow>
               clock e (Suc j) - clock e j < 28800000000 - m * 1000000"
      using Suc.prems(4) cr by (simp add: cr3)
    show "\<forall>i\<le>room. \<exists>b. batch_reply e (batch_posts s3 + i) = Response 401 b"
      using Suc.prems(5) by (simp add: bp3) (metis Suc_le_mono add_Suc_right)
  qed
  then obtain s' where s': "send_metrics_at room e metrics s3 = (Inr False, s')"
      "batch_posts s' = batch_posts s3 + room + 1"
      "login_posts s' = login_posts (snd (refresh_token_if_needed e s3)) + room + 1"
    by blast
  have "send_metrics_at (Suc room) e metrics s = (Inr False, s')"
    using send_metrics_at_after_gate [OF ne gate, of "Suc room"] r ok s'(1)
    by (simp add: s2_def s3_def)
  moreover have "batch_posts s' = batch_posts s + Suc room + 1"
    using s'(2) bp3 by simp
  moreover have "login_posts s' = login_posts (snd (refresh_token_if_needed e s)) + Suc room + 1"
    using s'(3) lp3 by (simp add: gate3 s1_def)
  ultimately show ?case by blast
qed

lemma get_agent_configuration_fields [simp]:
  "last_config_refresh (snd (get_agent_configuration e s)) = last_config_refresh s"
  "config (snd (get_agent_configuration e s)) = config s"
  "running (snd (get_agent_configuration e s)) = running s"
  "cycles (snd (get_agent_configuration e s)) = cycles s"
  "sleeps (snd (get_agent_configuration e s)) = sleeps s"
  "batch_posts (snd (get_agent_configuration e s)) = batch_posts s"
  "heartbeat_posts (snd (get_agent_configuration e s)) = heartbeat_posts s"
  by (simp_all add: get_agent_configuration_def Let_def case_prod_beta
      split: sum.splits reply.splits option.splits)

text \<open>The wait loop and the agent loop, step by step.\<close>

lemma wait_loop_stopped:
  "\<not> running s \<Longrightarrow> wait_loop e total_slept s = (total_slept, s)"
  by (subst wait_loop.simps) simp

lemma wait_loop_signal:
  "running s \<Longrightarrow>
   \<forall>j<k. \<not> signal_during_sleep e (sleeps s + j) \<Longrightarrow>
   signal_during_sleep e (sleeps s + k) \<Longrightarrow>
   total_slept + int k < collection_interval (config s) \<Longrightarrow>
   wait_loop e total_slept s =
     (total_slept + int k + 1, s\<lparr> running := False, sleeps := sleeps s + k + 1 \<rparr>)"
proof (induction k arbitrary: s total_slept)
  case 0
  have ts: "time_sleep e s = s\<lparr> running := False, sleeps := Suc (sleeps s) \<rparr>"
    using "0.prems"(3) by (simp add: time_sleep_def shutdown_handler_def)
  have "wait_loop e total_slept s = wait_loop e (total_slept + 1) (time_sleep e s)"
    using "0.prems"(1,4) by (subst wait_loop.simps) simp
  also have "\<dots> = (total_slept + 1, time_sleep e s)"
    by (rule wait_loop_stopped) (simp add: ts)
  finally show ?case
    by (simp add: ts)
next
  case (Suc k)
  have nosig: "\<not> signal_during_sleep e (sleeps s)"
    using Suc.prems(2) by (metis add.right_neutral zero_less_Suc)
  have ts: "time_sleep e s = s\<lparr> sleeps := Suc (sleeps s) \<rparr>"
    using nosig by (simp add: time_sleep_def)
  have step: "wait_loop e total_slept s = wait_loop e (total_slept + 1) (time_sleep e s)"
    using Suc.prems(1,4) by (subst wait_loop.simps) simp
  have "wait_loop e (total_slept + 1) (time_sleep e s) =
      (total_slept + 1 + int k + 1,
       (time_sleep e s)\<lparr> running := False, sleeps := sleeps (time_sleep e s) + k + 1 \<rparr>)"
  proof (rule Suc.IH)
    show "running (time_sleep e s)"
      using Suc.prems(1) by (simp add: ts)
    show "\<forall>j<k. \<not> signal_during_sleep e (sleeps (time_sleep e s) + j)"
      using Suc.prems(2) by (simp add: ts) (metis Suc_less_eq add_Suc_right)
    show "signal_during_sleep e (sleeps (time_sleep e s) + k)"
      using Suc.prems(3) by (simp add: ts)
    show "total_slept + 1 + int k < collection_interval (config (time_sleep e s))"
      using Suc.prems(4) by (simp add: ts)
  qed
  then show ?case
    by (simp add: step ts)
qed

lemma agent_loop_stopped: "\<not> running s \<Longrightarrow> agent_loop e s = Some s"
  by (subst agent_loop.simps) simp

lemma agent_loop_step:
  "running s \<Longrightarrow>
   agent_loop e s = agent_loop e (snd (wait_for_next_cycle e (cycle_body e s)))"
  by (subst agent_loop.simps) simp

text \<open>
  The first cycle of a running agent that holds a fresh token, in the stub environment:
  a heartbeat, a configuration refresh that brings the interval of 60 s, the CPU metric,
  the directory lookup and one batch POST.
\<close>

lemma cycle_body_running_agent:
  "running (cycle_body env_signal_at_2s running_agent) \<and>
   sleeps (cycle_body env_signal_at_2s running_agent) = 0 \<and>
   collection_interval (config (cycle_body env_signal_at_2s running_agent)) = 60 \<and>
   heartbeat_posts (cycle_body env_signal_at_2s running_agent) = 1 \<and>
   config_gets (cycle_body env_signal_at_2s running_agent) = 1 \<and>
   directory_gets (cycle_body env_signal_at_2s running_agent) = 1 \<and>
   batch_posts (cycle_body env_signal_at_2s running_agent) = 1 \<and>
   login_posts (cycle_body env_signal_at_2s running_agent) = 0 \<and>
   clock_reads (cycle_body env_signal_at_2s running_agent) = 12"
  by (simp add: cycle_body_def running_agent_def env_signal_at_2s_def fixture_defs
      token_manager_defs should_send_heartbeat_def do_send_heartbeat_def send_heartbeat_def
      should_refresh_config_def refresh_config_if_needed_def get_agent_configuration_def
      collect_and_send_metrics_def collect_all_metrics_def collect_storage_metrics_def
      run_probe_def append_metric_def get_monitored_directories_def heartbeat_interval_def
      config_refresh_interval_def dict_truthy_def update_from_api_def dict_get_def
      shutdown_handler_def send_metrics_def send_metrics_at.simps)

subsection \<open>Applying a remote configuration\<close>

text \<open>
  Claim C8. For every configuration and every remote payload, \<^verbatim>\<open>update_from_api\<close>
  sets the collection interval to the payload's \<^verbatim>\<open>data_collection_interval\<close>, or to 120
  when the key is absent, sets each of the four feature flags to the payload's value,
  or to \<open>True\<close> when absent, and returns \<open>True\<close> exactly when at least one of the five
  fields now differs from its value before the call.
\<close>

theorem update_from_api_overwrites_and_reports_change:
  "collection_interval (snd (update_from_api cfg d)) =
     (case get_data_collection_interval d of None \<Rightarrow> 120 | Some v \<Rightarrow> v) \<and>
   enable_cpu_monitoring (snd (update_from_api cfg d)) =
     (case get_enable_cpu_monitoring d of None \<Rightarrow> True | Some v \<Rightarrow> v) \<and>
   enable_ram_monitoring (snd (update_from_api cfg d)) =
     (case get_enable_ram_monitoring d of None \<Rightarrow> True | Some v \<Rightarrow> v) \<and>
   enable_disk_monitoring (snd (update_from_api cfg d)) =
     (case get_enable_disk_monitoring d of None \<Rightarrow> True | Some v \<Rightarrow> v) \<and>
   enable_network_monitoring (snd (update_from_api cfg d)) =
     (case get_enable_network_monitoring d of None \<Rightarrow> True | Some v \<Rightarrow> v) \<and>
   fst (update_from_api cfg d) =
     (\<not> (collection_interval (snd (update_from_api cfg d)) = collection_interval cfg \<and>
         enable_cpu_monitoring (snd (update_from_api cfg d)) = enable_cpu_monitoring cfg \<and>
         enable_ram_monitoring (snd (update_from_api cfg d)) = enable_ram_monitoring cfg \<and>
         enable_disk_monitoring (snd (update_from_api cfg d)) = enable_disk_monitoring cfg \<and>
         enable_network_monitoring (snd (update_from_api cfg d)) =
           enable_network_monitoring cfg))"
  by (auto simp: update_from_api_def dict_get_def Let_def)

text \<open>
  The payload \<^verbatim>\<open>{data_collection_interval: 60}\<close> on the default configuration
  (interval 120): the interval becomes 60, the flags stay enabled, a change is reported.
\<close>

theorem update_from_api_interval_60_witness:
  "collection_interval (snd (update_from_api test_config payload_interval_60)) = 60 \<and>
   enable_cpu_monitoring (snd (update_from_api test_config payload_interval_60)) \<and>
   enable_ram_monitoring (snd (update_from_api test_config payload_interval_60)) \<and>
   enable_disk_monitoring (snd (update_from_api test_config payload_interval_60)) \<and>
   enable_network_monitoring (snd (update_from_api test_config payload_interval_60)) \<and>
   fst (update_from_api test_config payload_interval_60)"
  using update_from_api_overwrites_and_reports_change [of test_config payload_interval_60]
  by (simp add: payload_interval_60_def test_config_def AgentConfig_init_def)

subsection \<open>Token validity\<close>

text \<open>
  Claim C4. For every token state and clock value, and every refresh margin from 0 to
  \<open>2 ^ 32\<close> s (the program uses 300 s), \<^verbatim>\<open>is_token_valid\<close> returns \<open>True\<close> exactly when
  a current token exists and its expiry minus the current time is strictly greater
  than the refresh margin (the margin is in seconds, the times in microseconds): within
  that range the rounding of \<^verbatim>\<open>total_seconds()\<close> to a double never changes the
  comparison. Apart from reading the clock once when a token exists, the method leaves
  the state as it was: no request is made, and neither the token nor the header changes.
\<close>

theorem is_token_valid_iff_beyond_margin:
  assumes "0 \<le> token_refresh_margin (config s)"
    and "token_refresh_margin (config s) \<le> 2 ^ 32"
  shows
    "fst (is_token_valid e s) =
       (\<exists>tok. current_token s = Some tok \<and>
              token_refresh_margin (config s) * 1000000
                < expires_at tok - clock e (clock_reads s)) \<and>
     snd (is_token_valid e s) =
       (case current_token s of
          None \<Rightarrow> s
        | Some tok \<Rightarrow> s\<lparr> clock_reads := Suc (clock_reads s) \<rparr>)"
  by (simp add: is_token_valid_exact [OF assms] split: option.splits)

text \<open>
  With the default margin of 300 s and the clock at 0: a token with 300.000001 s left
  is valid, one with exactly 300 s left is not, and without a token the answer is no.
\<close>

theorem is_token_valid_margin_witness:
  "fst (is_token_valid stub_env (agent_with_token 300000001)) \<and>
   \<not> fst (is_token_valid stub_env (agent_with_token 300000000)) \<and>
   \<not> fst (is_token_valid stub_env (ZenMonAgent_init stub_env test_config)) \<and>
   snd (is_token_valid stub_env (agent_with_token 300000001)) =
     (agent_with_token 300000001)\<lparr> clock_reads := 3 \<rparr>"
proof -
  have m: "0 \<le> token_refresh_margin (config (agent_with_token x))"
    "token_refresh_margin (config (agent_with_token x)) \<le> 2 ^ 32"
    "0 \<le> token_refresh_margin (config (ZenMonAgent_init stub_env test_config))"
    "token_refresh_margin (config (ZenMonAgent_init stub_env test_config)) \<le> 2 ^ 32" for x
    by (simp_all add: fixture_defs)
  show ?thesis
    using is_token_valid_iff_beyond_margin
            [where s = "agent_with_token 300000001" and e = stub_env, OF m(1,2)]
          is_token_valid_iff_beyond_margin
            [where s = "agent_with_token 300000000" and e = stub_env, OF m(1,2)]
          is_token_valid_iff_beyond_margin
            [where s = "ZenMonAgent_init stub_env test_config" and e = stub_env, OF m(3,4)]
    by (simp add: agent_with_token_def ZenMonAgent_init_def stub_env_def test_config_def
        AgentConfig_init_def)
qed

subsection \<open>Transmission after a 401\<close>

text \<open>
  Claim C1, as the code has it. For a non-empty batch that passes the token gate:
  when the batch POST is answered with 401, \<^verbatim>\<open>send_metrics\<close> re-authenticates at once.
  If that fails it returns \<open>False\<close> after this one POST. If it succeeds, \<^verbatim>\<open>send_metrics\<close>
  calls itself, and does so again after every further 401: no counter or flag bounds
  the retries, only the interpreter's stack does. Let the refresh margin be between 0
  and \<open>2 ^ 31\<close> s, and let the clock move by less than the token lifetime beyond the
  margin between two consecutive readings, so that each fresh token passes the gate of
  the nested call. Then \<open>k\<close> replies of 401 followed by a 200, with the \<open>k\<close>
  re-authentications succeeding, give exactly \<open>k + 1\<close> POSTs, \<open>k\<close> login requests and the
  result \<open>True\<close>, for every \<open>k\<close> up to the number of nested calls that the stack has
  room for. When every POST is answered with 401 and every re-authentication succeeds,
  the nesting ends with a \<open>RecursionError\<close>, which the last \<^verbatim>\<open>except\<close> clause turns
  into \<open>False\<close>: the result is \<open>False\<close> after one POST more than the stack has room for
  nested calls.
\<close>

theorem send_metrics_retries_after_every_401:
  assumes "metrics \<noteq> []" and "fst (refresh_token_if_needed e s) = Inr True"
  shows
    "((\<exists>b. batch_reply e (batch_posts s) = Response 401 b) \<and>
      \<not> fst (authenticate e
               ((snd (refresh_token_if_needed e s))\<lparr> batch_posts := Suc (batch_posts s) \<rparr>)) \<longrightarrow>
      (\<exists>s'. send_metrics e metrics s = (Inr False, s') \<and>
            batch_posts s' = batch_posts s + 1 \<and>
            login_posts s' = login_posts (snd (refresh_token_if_needed e s)) + 1)) \<and>
     (0 \<le> token_refresh_margin (config s) \<and> token_refresh_margin (config s) \<le> 2 ^ 31 \<and>
      (\<forall>j. clock_reads s \<le> j \<longrightarrow>
            clock e (Suc j) - clock e j
              < 28800000000 - token_refresh_margin (config s) * 1000000) \<and>
      k \<le> recursion_room e \<and>
      (\<forall>s'. login_posts (snd (refresh_token_if_needed e s)) \<le> login_posts s' \<and>
            login_posts s' < login_posts (snd (refresh_token_if_needed e s)) + k \<longrightarrow>
            fst (authenticate e s')) \<and>
      (\<forall>i<k. \<exists>b. batch_reply e (batch_posts s + i) = Response 401 b) \<and>
      (\<exists>b. batch_reply e (batch_posts s + k) = Response 200 b) \<longrightarrow>
      (\<exists>s'. send_metrics e metrics s = (Inr True, s') \<and>
            batch_posts s' = batch_posts s + k + 1 \<and>
            login_posts s' = login_posts (snd (refresh_token_if_needed e s)) + k)) \<and>
     (0 \<le> token_refresh_margin (config s) \<and> token_refresh_margin (config s) \<le> 2 ^ 31 \<and>
      (\<forall>j. clock_reads s \<le> j \<longrightarrow>
            clock e (Suc j) - clock e j
              < 28800000000 - token_refresh_margin (config s) * 1000000) \<and>
      (\<forall>s'. login_posts (snd (refresh_token_if_needed e s)) \<le> login_posts s' \<and>
            login_posts s'
              \<le> login_posts (snd (refresh_token_if_needed e s)) + recursion_room e \<longrightarrow>
            fst (authenticate e s')) \<and>
      (\<forall>i\<le>recursion_room e. \<exists>b. batch_reply e (batch_posts s + i) = Response 401 b) \<longrightarrow>
      (\<exists>s'. send_metrics e metrics s = (Inr False, s') \<and>
            batch_posts s' = batch_posts s + recursion_room e + 1))"
proof (intro conjI impI)
  define s1 where "s1 = snd (refresh_token_if_needed e s)"
  assume a: "(\<exists>b. batch_reply e (batch_posts s) = Response 401 b) \<and>
      \<not> fst (authenticate e
               ((snd (refresh_token_if_needed e s))\<lparr> batch_posts := Suc (batch_posts s) \<rparr>))"
  have gate: "refresh_token_if_needed e s = (Inr True, s1)"
    using assms(2) by (simp add: s1_def prod_eq_iff)
  have bp: "batch_posts s1 = batch_posts s"
    by (simp add: s1_def)
  from a obtain b where r: "batch_reply e (batch_posts s1) = Response 401 b"
    by (auto simp: bp)
  have "send_metrics e metrics s =
      (Inr False, snd (authenticate e (s1\<lparr> batch_posts := Suc (batch_posts s) \<rparr>)))"
    unfolding send_metrics_def
    using send_metrics_at_after_gate [OF assms(1) gate, of "recursion_room e"] r a
    by (simp add: bp s1_def)
  then show "\<exists>s'. send_metrics e metrics s = (Inr False, s') \<and>
            batch_posts s' = batch_posts s + 1 \<and>
            login_posts s' = login_posts (snd (refresh_token_if_needed e s)) + 1"
    by (simp add: s1_def)
next
  assume b: "0 \<le> token_refresh_margin (config s) \<and> token_refresh_margin (config s) \<le> 2 ^ 31 \<and>
      (\<forall>j. clock_reads s \<le> j \<longrightarrow>
            clock e (Suc j) - clock e j
              < 28800000000 - token_refresh_margin (config s) * 1000000) \<and>
      k \<le> recursion_room e \<and>
      (\<forall>s'. login_posts (snd (refresh_token_if_needed e s)) \<le> login_posts s' \<and>
            login_posts s' < login_posts (snd (refresh_token_if_needed e s)) + k \<longrightarrow>
            fst (authenticate e s')) \<and>
      (\<forall>i<k. \<exists>b. batch_reply e (batch_posts s + i) = Response 401 b) \<and>
      (\<exists>b. batch_reply e (batch_posts s + k) = Response 200 b)"
  have "\<exists>s'. send_metrics_at (recursion_room e) e metrics s = (Inr True, s') \<and>
            batch_posts s' = batch_posts s + k + 1 \<and>
            login_posts s' = login_posts (snd (refresh_token_if_needed e s)) + k"
    by (rule send_metrics_at_retries [OF assms(1) _ _ refl assms(2)]) (use b in blast)+
  then show "\<exists>s'. send_metrics e metrics s = (Inr True, s') \<and>
            batch_posts s' = batch_posts s + k + 1 \<and>
            login_posts s' = login_posts (snd (refresh_token_if_needed e s)) + k"
    by (simp add: send_metrics_def)
next
  assume c: "0 \<le> token_refresh_margin (config s) \<and> token_refresh_margin (config s) \<le> 2 ^ 31 \<and>
      (\<forall>j. clock_reads s \<le> j \<longrightarrow>
            clock e (Suc j) - clock e j
              < 28800000000 - token_refresh_margin (config s) * 1000000) \<and>
      (\<forall>s'. login_posts (snd (refresh_token_if_needed e s)) \<le> login_posts s' \<and>
            login_posts s'
              \<le> login_posts (snd (refresh_token_if_needed e s)) + recursion_room e \<longrightarrow>
            fst (authenticate e s')) \<and>
      (\<forall>i\<le>recursion_room e. \<exists>b. batch_reply e (batch_posts s + i) = Response 401 b)"
  have "\<exists>s'. send_metrics_at (recursion_room e) e metrics s = (Inr False, s') \<and>
            batch_posts s' = batch_posts s + recursion_room e + 1 \<and>
            login_posts s' =
              login_posts (snd (refresh_token_if_needed e s)) + recursion_room e + 1"
    by (rule send_metrics_at_exhausts [OF assms(1) _ _ refl assms(2)]) (use c in blast)+
  then show "\<exists>s'. send_metrics e metrics s = (Inr False, s') \<and>
            batch_posts s' = batch_posts s + recursion_room e + 1"
    by (auto simp: send_metrics_def)
qed

text \<open>
  A transport that answers 401 and then 200: two POSTs, one re-authentication, success.
  A transport that answers 401 while the login endpoint rejects the credentials: one
  POST, one login attempt, failure. A transport that always answers 401, under a stack
  with room for two nested calls: three POSTs, failure.
\<close>

theorem send_metrics_401_witness:
  "(\<exists>s'. send_metrics env_401_then_200 one_metric (agent_with_token 28800000000) =
           (Inr True, s') \<and>
         batch_posts s' = 2 \<and> login_posts s' = 1) \<and>
   (\<exists>s'. send_metrics env_401_login_down one_metric (agent_with_token 28800000000) =
           (Inr False, s') \<and>
         batch_posts s' = 1 \<and> login_posts s' = 1) \<and>
   (\<exists>s'. send_metrics env_401_always one_metric (agent_with_token 28800000000) =
           (Inr False, s') \<and>
         batch_posts s' = 3)"
proof -
  let ?s = "agent_with_token 28800000000"
  have ne: "one_metric \<noteq> []"
    by (simp add: one_metric_def)
  have g1: "fst (refresh_token_if_needed env_401_then_200 ?s) = Inr True"
    by (simp add: env_401_then_200_def fixture_defs token_manager_defs)
  have g2: "fst (refresh_token_if_needed env_401_login_down ?s) = Inr True"
    by (simp add: env_401_login_down_def env_login_down_def fixture_defs token_manager_defs)
  have g3: "fst (refresh_token_if_needed env_401_always ?s) = Inr True"
    by (simp add: env_401_always_def fixture_defs token_manager_defs)
  have m: "0 \<le> token_refresh_margin (config ?s)" "token_refresh_margin (config ?s) \<le> 2 ^ 31"
    by (simp_all add: fixture_defs)
  have h1: "\<forall>s'. fst (authenticate env_401_then_200 s')"
    "\<forall>s'. fst (authenticate env_401_always s')"
    by (simp_all add: env_401_then_200_def env_401_always_def fixture_defs token_manager_defs)
  have h2: "\<forall>j. clock_reads ?s \<le> j \<longrightarrow>
      clock env_401_then_200 (Suc j) - clock env_401_then_200 j
      < 28800000000 - token_refresh_margin (config ?s) * 1000000"
    "\<forall>j. clock_reads ?s \<le> j \<longrightarrow>
      clock env_401_always (Suc j) - clock env_401_always j
      < 28800000000 - token_refresh_margin (config ?s) * 1000000"
    by (simp_all add: env_401_then_200_def env_401_always_def fixture_defs)
  have h3: "\<forall>i<1. \<exists>b. batch_reply env_401_then_200 (batch_posts ?s + i) = Response 401 b"
    "\<exists>b. batch_reply env_401_then_200 (batch_posts ?s + 1) = Response 200 b"
    "1 \<le> recursion_room env_401_then_200"
    by (simp_all add: env_401_then_200_def fixture_defs)
  have h4: "\<forall>i\<le>recursion_room env_401_always.
      \<exists>b. batch_reply env_401_always (batch_posts ?s + i) = Response 401 b"
    "recursion_room env_401_always = 2"
    by (simp_all add: env_401_always_def fixture_defs)
  have k1: "\<exists>b. batch_reply env_401_login_down (batch_posts ?s) = Response 401 b"
    by (simp add: env_401_login_down_def env_login_down_def fixture_defs)
  have k2: "\<not> fst (authenticate env_401_login_down
      ((snd (refresh_token_if_needed env_401_login_down ?s))
         \<lparr> batch_posts := Suc (batch_posts ?s) \<rparr>))"
    by (simp add: env_401_login_down_def env_login_down_def fixture_defs token_manager_defs)
  have b0: "batch_posts ?s = 0"
    by (simp add: fixture_defs)
  have l1: "login_posts (snd (refresh_token_if_needed env_401_then_200 ?s)) = 0"
    by (simp add: env_401_then_200_def fixture_defs token_manager_defs)
  have l2: "login_posts (snd (refresh_token_if_needed env_401_login_down ?s)) = 0"
    by (simp add: env_401_login_down_def env_login_down_def fixture_defs token_manager_defs)
  show ?thesis
    using send_metrics_retries_after_every_401 [OF ne g1, of 1] m h1(1) h2(1) h3
      send_metrics_retries_after_every_401 [OF ne g2, of 0] k1 k2
      send_metrics_retries_after_every_401 [OF ne g3, of 0] h1(2) h2(2) h4
    by (simp add: b0 l1 l2 eval_nat_numeral)
qed

text \<open>
  The claim as written bounds the retries by one. A transport that answers 401 twice
  and then 200, with the login endpoint accepting every attempt, is sent three POSTs:
  the second 401 is retried as well.
\<close>

theorem send_metrics_two_retries_counterexample:
  "batch_posts (agent_with_token 28800000000) = 0 \<and>
   (\<exists>s'. send_metrics env_401_401_200 one_metric (agent_with_token 28800000000) =
           (Inr True, s') \<and>
         batch_posts s' = 3 \<and> login_posts s' = 2)"
proof -
  let ?s = "agent_with_token 28800000000"
  have ne: "one_metric \<noteq> []"
    by (simp add: one_metric_def)
  have g: "fst (refresh_token_if_needed env_401_401_200 ?s) = Inr True"
    by (simp add: env_401_401_200_def fixture_defs token_manager_defs)
  have h1: "\<forall>s'. login_posts (snd (refresh_token_if_needed env_401_401_200 ?s)) \<le> login_posts s' \<and>
      login_posts s' < login_posts (snd (refresh_token_if_needed env_401_401_200 ?s)) + 2 \<longrightarrow>
      fst (authenticate env_401_401_200 s')"
    by (simp add: env_401_401_200_def fixture_defs token_manager_defs)
  have h2: "\<forall>j. clock_reads ?s \<le> j \<longrightarrow>
      clock env_401_401_200 (Suc j) - clock env_401_401_200 j < 28800000000 - 300 * 1000000"
    by (simp add: env_401_401_200_def fixture_defs)
  have m: "token_refresh_margin (config ?s) = 300"
    by (simp add: fixture_defs)
  have h3: "\<forall>i<2. \<exists>b. batch_reply env_401_401_200 (batch_posts ?s + i) = Response 401 b"
    by (simp add: env_401_401_200_def fixture_defs)
  have h4: "\<exists>b. batch_reply env_401_401_200 (batch_posts ?s + 2) = Response 200 b"
    by (simp add: env_401_401_200_def fixture_defs)
  have r: "2 \<le> recursion_room env_401_401_200"
    by (simp add: env_401_401_200_def fixture_defs)
  have b0: "batch_posts ?s = 0"
    by (simp add: fixture_defs)
  have l: "login_posts (snd (refresh_token_if_needed env_401_401_200 ?s)) = 0"
    by (simp add: env_401_401_200_def fixture_defs token_manager_defs)
  have "0 \<le> (300::int)" "(300::int) \<le> 2 ^ 31"
    by simp_all
  from send_metrics_at_retries [OF ne this m g r h1 h2 h3 h4] show ?thesis
    by (simp add: b0 l send_metrics_def eval_nat_numeral)
qed

subsection \<open>The empty batch and the closed gate\<close>

text \<open>
  Claim C6. \<^verbatim>\<open>send_metrics\<close> on an empty list returns \<open>True\<close> and leaves the whole state as
  it was: no request, no token refresh, no clock reading. On a non-empty list, when
  \<^verbatim>\<open>refresh_token_if_needed\<close> returns \<open>False\<close>, \<^verbatim>\<open>send_metrics\<close> returns \<open>False\<close> in the
  state the gate left, and the count of batch POSTs is the one from before the call.
\<close>

theorem send_metrics_empty_or_gate_failure:
  "send_metrics e [] s = (Inr True, s) \<and>
   (metrics \<noteq> [] \<and> fst (refresh_token_if_needed e s) = Inr False \<longrightarrow>
      send_metrics e metrics s = (Inr False, snd (refresh_token_if_needed e s)) \<and>
      batch_posts (snd (refresh_token_if_needed e s)) = batch_posts s)"
proof (intro conjI impI)
  show "send_metrics e [] s = (Inr True, s)"
    unfolding send_metrics_def by (subst send_metrics_at.simps) simp
next
  assume a: "metrics \<noteq> [] \<and> fst (refresh_token_if_needed e s) = Inr False"
  then have "refresh_token_if_needed e s = (Inr False, snd (refresh_token_if_needed e s))"
    by (simp add: prod_eq_iff)
  then show "send_metrics e metrics s = (Inr False, snd (refresh_token_if_needed e s))"
    unfolding send_metrics_def using a by (intro send_metrics_at_gate_closed) simp_all
next
  show "batch_posts (snd (refresh_token_if_needed e s)) = batch_posts s"
    by simp
qed

text \<open>
  An agent without a token whose login is rejected: the empty batch succeeds untouched,
  a batch of one metric fails after one login attempt and no batch POST.
\<close>

theorem send_metrics_gate_failure_witness:
  "send_metrics env_login_down [] (ZenMonAgent_init stub_env test_config) =
     (Inr True, ZenMonAgent_init stub_env test_config) \<and>
   send_metrics env_login_down one_metric (ZenMonAgent_init stub_env test_config) =
     (Inr False, (ZenMonAgent_init stub_env test_config)\<lparr> login_posts := 1 \<rparr>) \<and>
   batch_posts ((ZenMonAgent_init stub_env test_config)\<lparr> login_posts := 1 \<rparr>) = 0"
proof -
  have ne: "one_metric \<noteq> []"
    by (simp add: one_metric_def)
  have g: "refresh_token_if_needed env_login_down (ZenMonAgent_init stub_env test_config) =
      (Inr False, (ZenMonAgent_init stub_env test_config)\<lparr> login_posts := 1 \<rparr>)"
    by (simp add: env_login_down_def fixture_defs token_manager_defs)
  show ?thesis
    using send_metrics_empty_or_gate_failure
        [of env_login_down "ZenMonAgent_init stub_env test_config" one_metric] ne
    by (simp add: g) (simp add: fixture_defs)
qed

subsection \<open>Transmission answered with 422\<close>

text \<open>
  Claim C7. For a non-empty batch that passes the token gate, when the batch POST is
  answered with 422, \<^verbatim>\<open>send_metrics\<close> returns \<open>False\<close>; the state is the one the gate left
  with one more batch POST counted, so exactly one send attempt was made and the
  response triggered no login request.
\<close>

theorem send_metrics_422_no_retry:
  assumes "metrics \<noteq> []"
    and "fst (refresh_token_if_needed e s) = Inr True"
    and "batch_reply e (batch_posts s) = Response 422 b"
  shows "\<exists>s'. send_metrics e metrics s = (Inr False, s') \<and>
           s' = (snd (refresh_token_if_needed e s))\<lparr> batch_posts := Suc (batch_posts s) \<rparr> \<and>
           batch_posts s' = batch_posts s + 1 \<and>
           login_posts s' = login_posts (snd (refresh_token_if_needed e s))"
proof -
  define s1 where "s1 = snd (refresh_token_if_needed e s)"
  have gate: "refresh_token_if_needed e s = (Inr True, s1)"
    using assms(2) by (simp add: s1_def prod_eq_iff)
  have bp: "batch_posts s1 = batch_posts s"
    by (simp add: s1_def)
  show ?thesis
    unfolding send_metrics_def
    using send_metrics_at_after_gate [OF assms(1) gate, of "recursion_room e"] assms(3)
    by (simp add: bp s1_def)
qed

text \<open>A transport that always answers 422, an agent with a fresh token: one POST, no login.\<close>

theorem send_metrics_422_witness:
  "\<exists>s'. send_metrics env_422 one_metric (agent_with_token 28800000000) = (Inr False, s') \<and>
        batch_posts s' = 1 \<and> login_posts s' = 0"
proof -
  have ne: "one_metric \<noteq> []"
    by (simp add: one_metric_def)
  have g: "fst (refresh_token_if_needed env_422 (agent_with_token 28800000000)) = Inr True"
    by (simp add: env_422_def fixture_defs token_manager_defs)
  have r: "batch_reply env_422 (batch_posts (agent_with_token 28800000000)) = Response 422 ()"
    by (simp add: env_422_def fixture_defs)
  have b0: "batch_posts (agent_with_token 28800000000) = 0"
    by (simp add: fixture_defs)
  have l: "login_posts (snd (refresh_token_if_needed env_422 (agent_with_token 28800000000))) = 0"
    by (simp add: env_422_def fixture_defs token_manager_defs)
  show ?thesis
    using send_metrics_422_no_retry [OF ne g r] by (simp add: b0 l)
qed

subsection \<open>The token gate\<close>

text \<open>
  The gate on string tokens. Let the current token, if there is one, and the token of
  the login response, if it has one, be strings, and let the refresh margin be between
  0 and \<open>2 ^ 31\<close> s. Then \<^verbatim>\<open>refresh_token_if_needed\<close> returns a boolean; it calls
  \<^verbatim>\<open>authenticate\<close> exactly once (one login request) when no token exists or when the
  remaining lifetime of the token is at most the refresh margin; otherwise it makes no
  login request and returns \<open>True\<close>; it never makes more than one login request. When
  the margin is below the session lifetime of 28800 s that \<^verbatim>\<open>authenticate\<close> assumes,
  as the margin of 300 s is, the result says whether \<^verbatim>\<open>is_token_valid\<close> holds right
  after the call, the clock standing where the call last read it.
\<close>

lemma refresh_token_if_needed_on_string_tokens:
  assumes cur: "\<forall>tok. current_token s = Some tok \<longrightarrow> (\<exists>t. token tok = JStr t)"
    and rep: "\<forall>data v. login_reply e (login_posts s) = Response 200 (Some data) \<longrightarrow>
                getitem data ''token'' = Inr v \<longrightarrow> (\<exists>t. v = JStr t)"
    and m0: "0 \<le> token_refresh_margin (config s)"
    and m1: "token_refresh_margin (config s) \<le> 2 ^ 31"
  shows
    "((current_token s = None \<or>
       (\<exists>tok. current_token s = Some tok \<and>
              expires_at tok - clock e (clock_reads s)
                \<le> token_refresh_margin (config s) * 1000000)) \<longrightarrow>
        login_posts (snd (refresh_token_if_needed e s)) = login_posts s + 1) \<and>
     (\<not> (current_token s = None \<or>
       (\<exists>tok. current_token s = Some tok \<and>
              expires_at tok - clock e (clock_reads s)
                \<le> token_refresh_margin (config s) * 1000000)) \<longrightarrow>
        login_posts (snd (refresh_token_if_needed e s)) = login_posts s \<and>
        fst (refresh_token_if_needed e s) = Inr True) \<and>
     login_posts (snd (refresh_token_if_needed e s)) \<le> login_posts s + 1 \<and>
     (\<exists>b. fst (refresh_token_if_needed e s) = Inr b) \<and>
     (token_refresh_margin (config s) < 28800 \<and>
      (\<forall>j. clock_reads s < j \<longrightarrow> clock e j = clock e (clock_reads s)) \<longrightarrow>
        (fst (refresh_token_if_needed e s) = Inr True) =
          fst (is_token_valid e (snd (refresh_token_if_needed e s))))"
proof (cases "current_token s")
  case None
  let ?A = "authenticate e s"
  have m2: "token_refresh_margin (config s) \<le> 2 ^ 32"
    using m1 by simp
  have R: "refresh_token_if_needed e s = (Inr (fst ?A), snd ?A)"
    by (rule refresh_no_token [OF None])
  have V: "fst (is_token_valid e (snd ?A)) =
      (\<exists>tok. current_token (snd ?A) = Some tok \<and>
             token_refresh_margin (config s) * 1000000
               < expires_at tok - clock e (clock_reads (snd ?A)))"
    using is_token_valid_iff [of "snd ?A" e] m0 m2 by simp
  have valid: "fst ?A = fst (is_token_valid e (snd ?A))"
    if m: "token_refresh_margin (config s) < 28800"
      and fr: "\<forall>j. clock_reads s < j \<longrightarrow> clock e j = clock e (clock_reads s)"
  proof (cases "fst ?A")
    case True
    from authenticate_success [OF True] obtain tok where
      tok: "current_token (snd ?A) = Some tok"
        "expires_at tok = clock e (clock_reads s) + 28800000000"
        "clock_reads (snd ?A) = Suc (clock_reads s)"
      by auto
    have "clock e (Suc (clock_reads s)) = clock e (clock_reads s)"
      using fr by simp
    then show ?thesis
      using True m by (simp add: V tok)
  next
    case False
    then show ?thesis
      using authenticate_failure_keeps_credentials [OF rep False] None
      by (simp add: V)
  qed
  show ?thesis
    using None valid by (simp add: R)
next
  case (Some tok)
  let ?c = "clock_reads s"
  let ?s0 = "s\<lparr> clock_reads := Suc ?c \<rparr>"
  let ?A = "authenticate e ?s0"
  have m2: "token_refresh_margin (config s) \<le> 2 ^ 32"
    using m1 by simp
  from cur Some have sl: "getslice (token tok) = Inr ()"
    by auto
  show ?thesis
  proof (cases "expires_at tok - clock e ?c \<le> token_refresh_margin (config s) * 1000000")
    case True
    have R: "refresh_token_if_needed e s = (Inr (fst ?A), snd ?A)"
      by (rule refresh_due [OF Some m0 m1 True sl])
    have rep0: "\<forall>data v. login_reply e (login_posts ?s0) = Response 200 (Some data) \<longrightarrow>
                getitem data ''token'' = Inr v \<longrightarrow> (\<exists>t. v = JStr t)"
      using rep by simp
    have V: "fst (is_token_valid e (snd ?A)) =
        (\<exists>tok. current_token (snd ?A) = Some tok \<and>
               token_refresh_margin (config s) * 1000000
                 < expires_at tok - clock e (clock_reads (snd ?A)))"
      using is_token_valid_iff [of "snd ?A" e] m0 m2 by simp
    have valid: "fst ?A = fst (is_token_valid e (snd ?A))"
      if m: "token_refresh_margin (config s) < 28800"
        and fr: "\<forall>j. clock_reads s < j \<longrightarrow> clock e j = clock e (clock_reads s)"
    proof (cases "fst ?A")
      case True
      from authenticate_success [OF True] obtain tok' where
        tok': "current_token (snd ?A) = Some tok'"
          "expires_at tok' = clock e (Suc ?c) + 28800000000"
          "clock_reads (snd ?A) = Suc (Suc ?c)"
        by auto
      have "clock e (Suc (Suc ?c)) = clock e ?c" "clock e (Suc ?c) = clock e ?c"
        using fr by simp_all
      then show ?thesis
        using True m by (simp add: V tok')
    next
      case False
      have le: "?c < clock_reads (snd ?A)"
        using clock_reads_authenticate [of ?s0 e] by simp
      have "clock e (clock_reads (snd ?A)) = clock e ?c"
        using fr le by simp
      then show ?thesis
        using authenticate_failure_keeps_credentials [OF rep0 False] Some True False
        by (simp add: V)
    qed
    show ?thesis
      using Some True valid by (simp add: R)
  next
    case False
    then have fresh: "token_refresh_margin (config s) * 1000000 < expires_at tok - clock e ?c"
      by simp
    have R: "refresh_token_if_needed e s = (Inr True, ?s0)"
      by (rule refresh_fresh [OF Some m0 m1 fresh])
    have V: "fst (is_token_valid e ?s0) =
        (\<exists>tok. current_token ?s0 = Some tok \<and>
               token_refresh_margin (config s) * 1000000
                 < expires_at tok - clock e (clock_reads ?s0))"
      using is_token_valid_iff [of ?s0 e] m0 m2 by simp
    show ?thesis
      using Some False by (auto simp: R V)
  qed
qed

text \<open>
  With the default margin of 300 s and the clock at 0: a token with exactly 300 s left
  is renewed by one login and the result is a valid token; a token with 300.000001 s
  left causes no login; without a token and with the login rejected there is one login
  attempt, the result is \<open>False\<close> and no valid token exists.
\<close>

lemma refresh_token_if_needed_default_margin:
  "login_posts (snd (refresh_token_if_needed stub_env (agent_with_token 300000000))) = 1 \<and>
   fst (refresh_token_if_needed stub_env (agent_with_token 300000000)) = Inr True \<and>
   fst (is_token_valid stub_env
         (snd (refresh_token_if_needed stub_env (agent_with_token 300000000)))) \<and>
   login_posts (snd (refresh_token_if_needed stub_env (agent_with_token 300000001))) = 0 \<and>
   fst (refresh_token_if_needed stub_env (agent_with_token 300000001)) = Inr True \<and>
   login_posts (snd (refresh_token_if_needed env_login_down
      (ZenMonAgent_init stub_env test_config))) = 1 \<and>
   fst (refresh_token_if_needed env_login_down (ZenMonAgent_init stub_env test_config))
     = Inr False \<and>
   \<not> fst (is_token_valid env_login_down
         (snd (refresh_token_if_needed env_login_down (ZenMonAgent_init stub_env test_config))))"
proof -
  have cur: "\<forall>tok. current_token (agent_with_token x) = Some tok \<longrightarrow> (\<exists>t. token tok = JStr t)"
    for x
    by (simp add: fixture_defs)
  have cur0: "\<forall>tok. current_token (ZenMonAgent_init stub_env test_config) = Some tok
      \<longrightarrow> (\<exists>t. token tok = JStr t)"
    by (simp add: fixture_defs)
  have rep: "\<forall>data v. login_reply stub_env (login_posts s) = Response 200 (Some data) \<longrightarrow>
      getitem data ''token'' = Inr v \<longrightarrow> (\<exists>t. v = JStr t)" for s
    by (auto simp: fixture_defs getitem_def)
  have rep0: "\<forall>data v. login_reply env_login_down (login_posts s) = Response 200 (Some data) \<longrightarrow>
      getitem data ''token'' = Inr v \<longrightarrow> (\<exists>t. v = JStr t)" for s
    by (simp add: env_login_down_def fixture_defs)
  have r: "0 \<le> token_refresh_margin (config (agent_with_token x))"
    "token_refresh_margin (config (agent_with_token x)) \<le> 2 ^ 31"
    "0 \<le> token_refresh_margin (config (ZenMonAgent_init stub_env test_config))"
    "token_refresh_margin (config (ZenMonAgent_init stub_env test_config)) \<le> 2 ^ 31" for x
    by (simp_all add: fixture_defs)
  have m: "token_refresh_margin (config (agent_with_token x)) < 28800"
    "current_token (agent_with_token x) =
       Some \<lparr> token = JStr ''previous'', expires_at = x, user_id = JNum 1,
              username = JStr ''admin'' \<rparr>"
    "clock stub_env j = 0" "clock env_login_down j = 0"
    "token_refresh_margin (config (agent_with_token x)) = 300"
    "login_posts (agent_with_token x) = 0"
    for x j
    by (simp_all add: env_login_down_def fixture_defs)
  have m0: "token_refresh_margin (config (ZenMonAgent_init stub_env test_config)) < 28800"
    "current_token (ZenMonAgent_init stub_env test_config) = None"
    "login_posts (ZenMonAgent_init stub_env test_config) = 0"
    by (simp_all add: fixture_defs)
  have e1: "fst (refresh_token_if_needed stub_env (agent_with_token 300000000)) = Inr True"
    by (simp add: fixture_defs token_manager_defs)
  have e2: "fst (refresh_token_if_needed env_login_down
      (ZenMonAgent_init stub_env test_config)) = Inr False"
    by (simp add: env_login_down_def fixture_defs token_manager_defs)
  show ?thesis
    using refresh_token_if_needed_on_string_tokens
            [where s = "agent_with_token 300000000" and e = stub_env, OF cur rep r(1,2)]
          refresh_token_if_needed_on_string_tokens
            [where s = "agent_with_token 300000001" and e = stub_env, OF cur rep r(1,2)]
          refresh_token_if_needed_on_string_tokens
            [where s = "ZenMonAgent_init stub_env test_config" and e = env_login_down,
             OF cur0 rep0 r(3,4)]
    by (simp add: m m0 e1 e2)
qed

text \<open>
  Claim C5 says that \<^verbatim>\<open>refresh_token_if_needed\<close> calls \<^verbatim>\<open>authenticate\<close> exactly once
  when the remaining lifetime of the token is at most the refresh margin, and that its
  result reports whether a valid token exists after the call. On string tokens it does
  (lemma \<open>refresh_token_if_needed_on_string_tokens\<close>). It does not once a login response
  has carried a token that is not a string, here
  \<^verbatim>\<open>{"token": 12345, "user": {"id": 1, "login": "admin"}}\<close>, with the default margin of
  300 s. The agent holds the token \<^verbatim>\<open>previous\<close> with 300 s left, so the gate calls
  \<^verbatim>\<open>authenticate\<close>, which installs the token 12345, fails on its debug message and
  returns \<open>False\<close>: the gate returns \<open>False\<close> although \<^verbatim>\<open>is_token_valid\<close> is \<open>True\<close>
  right after the call. When 28500 s later that token has 300 s left, the gate
  evaluates \<^verbatim>\<open>self.current_token.token[:20]\<close> for its own debug message, which raises
  \<open>TypeError\<close>: no boolean is returned and \<^verbatim>\<open>authenticate\<close> is not called, the
  state changing by the clock reading alone. The next call does the same.
\<close>

theorem refresh_token_if_needed_raises_on_numeric_token:
  "fst (refresh_token_if_needed env_numeric_token_late (agent_with_token 300000000)) =
     Inr False \<and>
   snd (refresh_token_if_needed env_numeric_token_late (agent_with_token 300000000)) =
     (agent_with_token 300000000)
       \<lparr> current_token := Some \<lparr> token = JNum 12345, expires_at = 28800000000,
                                  user_id = JNum 1, username = JStr ''admin'' \<rparr>,
         authorization := Some (JNum 12345), clock_reads := 4, login_posts := 1 \<rparr> \<and>
   is_token_valid env_numeric_token_late
       (snd (refresh_token_if_needed env_numeric_token_late (agent_with_token 300000000))) =
     (True, (snd (refresh_token_if_needed env_numeric_token_late (agent_with_token 300000000)))
              \<lparr> clock_reads := 5 \<rparr>) \<and>
   28800000000 - clock env_numeric_token_late 5 = 300 * 1000000 \<and>
   token_refresh_margin (config (agent_with_token 300000000)) = 300 \<and>
   refresh_token_if_needed env_numeric_token_late
       ((snd (refresh_token_if_needed env_numeric_token_late (agent_with_token 300000000)))
          \<lparr> clock_reads := 5 \<rparr>) =
     (Inl TypeError,
      (snd (refresh_token_if_needed env_numeric_token_late (agent_with_token 300000000)))
        \<lparr> clock_reads := 6 \<rparr>) \<and>
   refresh_token_if_needed env_numeric_token_late
       ((snd (refresh_token_if_needed env_numeric_token_late (agent_with_token 300000000)))
          \<lparr> clock_reads := 6 \<rparr>) =
     (Inl TypeError,
      (snd (refresh_token_if_needed env_numeric_token_late (agent_with_token 300000000)))
        \<lparr> clock_reads := 7 \<rparr>)"
proof -
  have g: "refresh_token_if_needed env_numeric_token_late (agent_with_token 300000000) =
     (Inr False,
      (agent_with_token 300000000)
       \<lparr> current_token := Some \<lparr> token = JNum 12345, expires_at = 28800000000,
                                  user_id = JNum 1, username = JStr ''admin'' \<rparr>,
         authorization := Some (JNum 12345), clock_reads := 4, login_posts := 1 \<rparr>)"
    by (simp add: env_numeric_token_late_def env_numeric_token_def fixture_defs
        token_manager_defs)
  show ?thesis
    unfolding g fst_conv snd_conv
    by (simp add: env_numeric_token_late_def env_numeric_token_def fixture_defs
        token_manager_defs)
qed

subsection \<open>A failed authentication and the credentials\<close>

text \<open>
  Claim C10 says that every failure path of \<^verbatim>\<open>authenticate\<close> returns \<open>False\<close> and leaves
  the current token and the \<^verbatim>\<open>Authorization\<close> header as they were. The paths that fail
  before the token is assigned do (lemma \<open>authenticate_failure_keeps_credentials\<close>).
  One path does not: a response with status 200 whose \<^verbatim>\<open>token\<close> is not a string, here
  \<^verbatim>\<open>{"token": 12345, "user": {"id": 1, "login": "admin"}}\<close>. The new token and the
  header are assigned, then the debug message evaluates \<^verbatim>\<open>token_string[:20]\<close>, which
  raises \<open>TypeError\<close>; the last \<^verbatim>\<open>except\<close> clause returns \<open>False\<close>. The agent held
  the token \<^verbatim>\<open>previous\<close> before the call and holds 12345 after it.
\<close>

theorem authenticate_numeric_token_fails_after_installing_it:
  "current_token (agent_with_token 300000000) =
     Some \<lparr> token = JStr ''previous'', expires_at = 300000000,
            user_id = JNum 1, username = JStr ''admin'' \<rparr> \<and>
   authorization (agent_with_token 300000000) = Some (JStr ''previous'') \<and>
   \<not> fst (authenticate env_numeric_token (agent_with_token 300000000)) \<and>
   current_token (snd (authenticate env_numeric_token (agent_with_token 300000000))) =
     Some \<lparr> token = JNum 12345, expires_at = 28800000000,
            user_id = JNum 1, username = JStr ''admin'' \<rparr> \<and>
   authorization (snd (authenticate env_numeric_token (agent_with_token 300000000))) =
     Some (JNum 12345)"
  by (simp add: env_numeric_token_def fixture_defs token_manager_defs)

subsection \<open>The configuration refresh and its timestamp\<close>

text \<open>
  Claim C2, as the code has it. \<^verbatim>\<open>_refresh_config_if_needed\<close> sets
  \<^verbatim>\<open>last_config_refresh\<close> to the current time when \<^verbatim>\<open>get_agent_configuration\<close> returned
  a non-empty configuration. In every other case (the gate closed, a network error,
  a status other than 200, a body that is not JSON, an empty object, an exception) the
  timestamp keeps its value, so a refresh that was due at some time is due at every
  later time: a failing endpoint is asked again on each cycle.
\<close>

theorem refresh_config_timestamp_moves_only_on_success:
  "(fst (get_agent_configuration e s) = Inr (Some d) \<and> dict_truthy d \<longrightarrow>
      last_config_refresh (refresh_config_if_needed e s) =
        clock e (clock_reads (snd (get_agent_configuration e s)))) \<and>
   (\<not> (\<exists>d. fst (get_agent_configuration e s) = Inr (Some d) \<and> dict_truthy d) \<longrightarrow>
      last_config_refresh (refresh_config_if_needed e s) = last_config_refresh s \<and>
      (\<forall>t t'. config_refresh_interval \<le> t - last_config_refresh s \<and> t \<le> t' \<longrightarrow>
         config_refresh_interval \<le> t' - last_config_refresh (refresh_config_if_needed e s)))"
proof -
  obtain r s1 where g: "get_agent_configuration e s = (r, s1)"
    by (cases "get_agent_configuration e s")
  have s1: "last_config_refresh s1 = last_config_refresh s"
    using get_agent_configuration_fields(1) [of e s] by (simp add: g)
  show ?thesis
    by (auto simp: refresh_config_if_needed_def g s1 datetime_now_def Let_def case_prod_beta
        split: sum.splits option.splits)
qed

text \<open>
  The claim as written has the timestamp move after a failed refresh. With the
  configuration endpoint answering 500, a refresh that is due is attempted (one GET),
  the timestamp stays at its old value, and the refresh is due again at once.
\<close>

theorem refresh_config_failure_counterexample:
  "fst (should_refresh_config env_config_down (agent_with_token 28800000000)) \<and>
   config_gets (refresh_config_if_needed env_config_down (agent_with_token 28800000000)) = 1 \<and>
   last_config_refresh (agent_with_token 28800000000) = - 900000000 \<and>
   last_config_refresh (refresh_config_if_needed env_config_down (agent_with_token 28800000000))
     = - 900000000 \<and>
   fst (should_refresh_config env_config_down
         (refresh_config_if_needed env_config_down (agent_with_token 28800000000)))"
  by (simp add: env_config_down_def fixture_defs token_manager_defs should_refresh_config_def
      refresh_config_if_needed_def get_agent_configuration_def config_refresh_interval_def)

text \<open>
  With the clock at 0 and the timestamp at \<open>-900\<close> s: a successful refresh moves the
  timestamp to 0, a failed one leaves it, and the refresh is then still due one
  microsecond later.
\<close>

theorem refresh_config_timestamp_witness:
  "last_config_refresh (refresh_config_if_needed stub_env (agent_with_token 28800000000)) = 0 \<and>
   last_config_refresh (refresh_config_if_needed env_config_down (agent_with_token 28800000000))
     = - 900000000 \<and>
   config_refresh_interval
     \<le> 1 - last_config_refresh
             (refresh_config_if_needed env_config_down (agent_with_token 28800000000))"
proof -
  have a: "fst (get_agent_configuration stub_env (agent_with_token 28800000000)) =
      Inr (Some payload_interval_60)"
    by (simp add: fixture_defs token_manager_defs get_agent_configuration_def)
  have b: "dict_truthy payload_interval_60"
    by (simp add: dict_truthy_def payload_interval_60_def)
  have c: "\<not> (\<exists>d. fst (get_agent_configuration env_config_down (agent_with_token 28800000000))
      = Inr (Some d) \<and> dict_truthy d)"
    by (simp add: env_config_down_def fixture_defs token_manager_defs
        get_agent_configuration_def)
  have d: "clock stub_env j = 0" "last_config_refresh (agent_with_token x) = - 900000000"
    "config_refresh_interval \<le> 0 - (- 900000000)" for j x
    by (simp_all add: fixture_defs config_refresh_interval_def)
  show ?thesis
    using refresh_config_timestamp_moves_only_on_success
            [of stub_env "agent_with_token 28800000000" payload_interval_60] a b
          refresh_config_timestamp_moves_only_on_success
            [of env_config_down "agent_with_token 28800000000"] c d(3)
    by (simp add: d(1,2))
qed

subsection \<open>A failed initial authentication\<close>

text \<open>
  Claim C3 says that after a failed initial authentication the agent never enters the
  running loop, does not retry, and the process exits with a non-zero status. The first
  two hold: \<^verbatim>\<open>start\<close> returns after one login request with \<^verbatim>\<open>running\<close> still
  \<open>False\<close>, and no cycle, sleep or other request has happened. The exit status does
  not: \<^verbatim>\<open>start\<close> returns normally, \<^verbatim>\<open>main\<close> ends after it, and the process exits
  with status 0.
\<close>

theorem failed_initial_authentication_returns_with_status_0:
  assumes "length argv = 5"
    and "py_int e (argv ! 2) = Some hid"
    and "agent = ZenMonAgent_init e (AgentConfig_init (argv ! 1) hid (argv ! 3) (argv ! 4))"
    and "\<not> fst (authenticate e agent)"
  shows "start e agent = Some (Inr (), snd (authenticate e agent)) \<and>
         \<not> running (snd (authenticate e agent)) \<and>
         login_posts (snd (authenticate e agent)) = 1 \<and>
         cycles (snd (authenticate e agent)) = 0 \<and>
         sleeps (snd (authenticate e agent)) = 0 \<and>
         batch_posts (snd (authenticate e agent)) = 0 \<and>
         heartbeat_posts (snd (authenticate e agent)) = 0 \<and>
         config_gets (snd (authenticate e agent)) = 0 \<and>
         main e argv = Some 0"
proof -
  have st: "start e agent = Some (Inr (), snd (authenticate e agent))"
    using assms(4) by (simp add: start_def case_prod_beta)
  have init: "\<not> running agent" "login_posts agent = 0" "cycles agent = 0" "sleeps agent = 0"
    "batch_posts agent = 0" "heartbeat_posts agent = 0" "config_gets agent = 0"
    by (simp_all add: assms(3) ZenMonAgent_init_def)
  have "main e argv = Some 0"
    using assms(1,2) st by (simp add: main_def assms(3) Let_def)
  then show ?thesis
    using st init by simp
qed

text \<open>
  The example command line against a login endpoint that answers 401: one login
  request, the agent not running, exit status 0.
\<close>

theorem failed_initial_authentication_witness:
  "start env_login_down (ZenMonAgent_init env_login_down test_config) =
     Some (Inr (), (ZenMonAgent_init env_login_down test_config)\<lparr> login_posts := 1 \<rparr>) \<and>
   \<not> running ((ZenMonAgent_init env_login_down test_config)\<lparr> login_posts := 1 \<rparr>) \<and>
   main env_login_down argv_example = Some 0"
proof -
  have a: "length argv_example = 5"
    by (simp add: argv_example_def)
  have b: "py_int env_login_down (argv_example ! 2) = Some 42"
    by (simp add: argv_example_def env_login_down_def stub_env_def)
  have c: "ZenMonAgent_init env_login_down test_config =
      ZenMonAgent_init env_login_down
        (AgentConfig_init (argv_example ! 1) 42 (argv_example ! 3)
           (argv_example ! 4))"
    by (simp add: argv_example_def test_config_def AgentConfig_init_def
        ZenMonAgent_init_def)
  have d: "authenticate env_login_down (ZenMonAgent_init env_login_down test_config) =
      (False, (ZenMonAgent_init env_login_down test_config)\<lparr> login_posts := 1 \<rparr>)"
    by (simp add: env_login_down_def fixture_defs token_manager_defs)
  have e: "\<not> fst (authenticate env_login_down (ZenMonAgent_init env_login_down test_config))"
    by (simp add: d)
  show ?thesis
    using failed_initial_authentication_returns_with_status_0 [OF a b c e]
    by (simp add: d)
qed

subsection \<open>The wait between cycles and the shutdown signal\<close>

text \<open>
  Claim C9. \<^verbatim>\<open>_wait_for_next_cycle\<close> sleeps one second at a time and tests \<^verbatim>\<open>running\<close>
  before each step. Let the wait start with the flag set, and let the first shutdown
  signal arrive during sleep step \<open>k + 1\<close>, before the collection interval is over. Then
  the wait returns when that step ends, after \<open>k + 1\<close> seconds, with the flag cleared,
  and makes no further step; the loop of \<^verbatim>\<open>start\<close>, entered from a running state whose
  cycle body ended in the state the wait began with, then returns. A wait that starts
  with the flag already cleared returns without sleeping.
\<close>

theorem wait_for_next_cycle_returns_one_step_after_signal:
  assumes "running s1"
    and "\<forall>j<k. \<not> signal_during_sleep e (sleeps s1 + j)"
    and "signal_during_sleep e (sleeps s1 + k)"
    and "int k < collection_interval (config s1)"
  shows "wait_for_next_cycle e s1 =
           (int k + 1, s1\<lparr> running := False, sleeps := sleeps s1 + k + 1 \<rparr>) \<and>
         agent_loop e (snd (wait_for_next_cycle e s1)) =
           Some (s1\<lparr> running := False, sleeps := sleeps s1 + k + 1 \<rparr>) \<and>
         (\<forall>s. running s \<and> cycle_body e s = s1 \<longrightarrow>
              agent_loop e s = Some (s1\<lparr> running := False, sleeps := sleeps s1 + k + 1 \<rparr>)) \<and>
         (\<forall>s0. \<not> running s0 \<longrightarrow> wait_for_next_cycle e s0 = (0, s0))"
proof -
  have w: "wait_for_next_cycle e s1 =
      (int k + 1, s1\<lparr> running := False, sleeps := sleeps s1 + k + 1 \<rparr>)"
    unfolding wait_for_next_cycle_def
    using wait_loop_signal [OF assms(1,2,3), of 0] assms(4) by simp
  have l: "agent_loop e (snd (wait_for_next_cycle e s1)) =
      Some (s1\<lparr> running := False, sleeps := sleeps s1 + k + 1 \<rparr>)"
    by (simp add: w agent_loop_stopped)
  have "agent_loop e s = Some (s1\<lparr> running := False, sleeps := sleeps s1 + k + 1 \<rparr>)"
    if "running s" and "cycle_body e s = s1" for s
    using agent_loop_step [OF that(1), of e] l by (simp add: that(2))
  then show ?thesis
    using w l by (simp add: wait_for_next_cycle_def wait_loop_stopped)
qed

text \<open>
  A signal raised at t = 2 s, during the third sleep: a wait of 120 s returns after 3
  steps. From a running agent, the first cycle takes the interval of 60 s from the remote
  configuration, the wait after it is cut off after 3 steps, and the loop ends.
\<close>

theorem wait_for_next_cycle_signal_witness:
  "wait_for_next_cycle env_signal_at_2s running_agent =
     (3, running_agent\<lparr> running := False, sleeps := 3 \<rparr>) \<and>
   collection_interval (config running_agent) = 120 \<and>
   (\<exists>s'. agent_loop env_signal_at_2s running_agent = Some s' \<and> \<not> running s' \<and>
         sleeps s' = 3 \<and> collection_interval (config s') = 60)"
proof -
  have sig: "\<forall>j<2. \<not> signal_during_sleep env_signal_at_2s (0 + j)"
    "signal_during_sleep env_signal_at_2s (0 + 2)"
    by (simp_all add: env_signal_at_2s_def)
  have r: "running running_agent" "sleeps running_agent = 0"
    "collection_interval (config running_agent) = 120"
    by (simp_all add: running_agent_def fixture_defs)
  have sig0: "\<forall>j<2. \<not> signal_during_sleep env_signal_at_2s (sleeps running_agent + j)"
    "signal_during_sleep env_signal_at_2s (sleeps running_agent + 2)"
    "int 2 < collection_interval (config running_agent)"
    using sig by (simp_all add: r)
  define s1 where "s1 = cycle_body env_signal_at_2s running_agent"
  have s1: "cycle_body env_signal_at_2s running_agent = s1" "running s1"
      "sleeps s1 = 0" "collection_interval (config s1) = 60"
    using cycle_body_running_agent by (simp_all add: s1_def)
  have sig1: "\<forall>j<2. \<not> signal_during_sleep env_signal_at_2s (sleeps s1 + j)"
    "signal_during_sleep env_signal_at_2s (sleeps s1 + 2)"
    "int 2 < collection_interval (config s1)"
    using sig by (simp_all add: s1)
  have a: "agent_loop env_signal_at_2s running_agent =
      Some (s1\<lparr> running := False, sleeps := sleeps s1 + 2 + 1 \<rparr>)"
    using wait_for_next_cycle_returns_one_step_after_signal [OF s1(2) sig1] r(1) s1(1)
    by blast
  show ?thesis
    using wait_for_next_cycle_returns_one_step_after_signal [OF r(1) sig0]
    by (simp add: a r s1)
qed

end
